theory Spec2Isabelle
  imports Main
begin

text \<open>
  A model of \<^verbatim>\<open>kafka_kerberos_utility.py\<close>: the class \<^verbatim>\<open>KafkaKerberosUtility\<close> resolves
  its configuration from a file and the environment, validates it, prepares the
  Kerberos login, keeps one producer and one consumer per topic, and offers
  \<^verbatim>\<open>produce_message\<close> and \<^verbatim>\<open>consume_messages\<close>. Every method becomes a function on an
  explicit state; what the Kafka library, the file system and the callbacks do is a
  parameter. Methods whose Python name starts with an underscore are named without it.
\<close>

section \<open>Values and exceptions\<close>

text \<open>
  The configuration of \<^verbatim>\<open>KafkaKerberosUtility\<close> is a Python \<^verbatim>\<open>Dict[str, Any]\<close>. Its
  values are strings (from the file, the environment or the defaults) and, after the
  numeric conversion at the end of \<^verbatim>\<open>_load_config\<close>, integers.
\<close>

datatype cfg_value = VStr string | VInt int

type_synonym config = "string \<rightharpoonup> cfg_value"

text \<open>
  Exceptions are values. The first four constructors are exceptions that are not
  \<^verbatim>\<open>KafkaKerberosError\<close>: the \<^verbatim>\<open>ValueError\<close> of \<^verbatim>\<open>int()\<close> (with the rejected literal), a
  \<^verbatim>\<open>KeyError\<close> of a dictionary subscript (with the key), an \<^verbatim>\<open>AttributeError\<close>, and any
  exception raised by a library or by a callback (with its message). Each of the
  remaining constructors stands for one \<^verbatim>\<open>raise KafkaKerberosError(...)\<close> of the source,
  with the data its message is formatted from.
\<close>

datatype py_exception =
    ValueError string
  | KeyError string
  | AttributeError string
  | LibraryError string
  | MissingRequired "string list"
  | KeytabNotFound cfg_value
  | EmptyBrokerList
  | KerberosSetupFailed py_exception
  | JaasCreateFailed py_exception
  | ProducerCreateFailed cfg_value py_exception
  | ConsumerCreateFailed cfg_value py_exception
  | ProductionFailed py_exception
  | ConsumptionFailed py_exception

fun is_KafkaKerberosError :: "py_exception \<Rightarrow> bool" where
  "is_KafkaKerberosError (ValueError _) = False"
| "is_KafkaKerberosError (KeyError _) = False"
| "is_KafkaKerberosError (AttributeError _) = False"
| "is_KafkaKerberosError (LibraryError _) = False"
| "is_KafkaKerberosError _ = True"

text \<open>Python truthiness of \<^verbatim>\<open>config.get(key)\<close>: \<^verbatim>\<open>None\<close>, \<^verbatim>\<open>''\<close> and \<^verbatim>\<open>0\<close> are falsy.\<close>

fun truthy :: "cfg_value option \<Rightarrow> bool" where
  "truthy None = False"
| "truthy (Some (VStr s)) = (s \<noteq> [])"
| "truthy (Some (VInt i)) = (i \<noteq> 0)"

subsection \<open>The builtin \<^verbatim>\<open>int()\<close> on strings\<close>

text \<open>
  \<^verbatim>\<open>int(s)\<close> for a string of ASCII characters: surrounding whitespace is stripped, one
  sign is allowed, and the rest is a non-empty run of decimal digits in which single
  underscores may separate digits. Anything else raises \<^verbatim>\<open>ValueError\<close>.
\<close>

definition py_isspace :: "char \<Rightarrow> bool" where
  "py_isspace c \<longleftrightarrow>
     c \<in> set [CHR '' '', CHR 0x09, CHR 0x0A, CHR 0x0B, CHR 0x0C, CHR 0x0D,
              CHR 0x1C, CHR 0x1D, CHR 0x1E, CHR 0x1F]"

definition py_strip :: "string \<Rightarrow> string" where
  "py_strip s = rev (dropWhile py_isspace (rev (dropWhile py_isspace s)))"

definition is_digit :: "char \<Rightarrow> bool" where
  "is_digit c \<longleftrightarrow> c \<in> set ''0123456789''"

definition digit_val :: "char \<Rightarrow> nat" where
  "digit_val c = of_char c - 48"

fun digits_ok :: "string \<Rightarrow> bool" where
  "digits_ok [] = False"
| "digits_ok [c] = is_digit c"
| "digits_ok (c # d # cs) =
     (is_digit c \<and> (if d = CHR ''_'' then digits_ok cs else digits_ok (d # cs)))"

definition dec_value :: "string \<Rightarrow> nat" where
  "dec_value s = foldl (\<lambda>acc c. if c = CHR ''_'' then acc else 10 * acc + digit_val c) 0 s"

definition py_int :: "string \<Rightarrow> int option" where
  "py_int s =
     (let t = py_strip s;
          neg = (t \<noteq> [] \<and> hd t = CHR ''-'');
          body = (if t \<noteq> [] \<and> (hd t = CHR ''-'' \<or> hd t = CHR ''+'') then tl t else t)
      in if digits_ok body
         then Some (if neg then - int (dec_value body) else int (dec_value body))
         else None)"

text \<open>\<^verbatim>\<open>int(v)\<close> for a configuration value: an integer is returned as it is.\<close>

fun py_int_value :: "cfg_value \<Rightarrow> py_exception + int" where
  "py_int_value (VInt i) = Inr i"
| "py_int_value (VStr s) = (case py_int s of None \<Rightarrow> Inl (ValueError s) | Some i \<Rightarrow> Inr i)"

section \<open>Configuration resolution: \<^verbatim>\<open>_load_config\<close>\<close>

text \<open>
  What \<^verbatim>\<open>configparser\<close> hands over after \<^verbatim>\<open>parser.read\<close>: for each section name the
  options of the section with their string values.
\<close>

type_synonym ini = "string \<rightharpoonup> (string \<rightharpoonup> string)"

text \<open>
  The dictionary \<^verbatim>\<open>env_config\<close> of the source, as the list of its items in order:
  configuration key and \<^verbatim>\<open>os.getenv\<close> of its variable.
\<close>

definition env_vars :: "(string \<times> string) list" where
  "env_vars =
     [(''bootstrap_servers'', ''KAFKA_BOOTSTRAP_SERVERS''),
      (''topic'', ''KAFKA_TOPIC''),
      (''keytab_path'', ''KAFKA_KEYTAB_PATH''),
      (''principal'', ''KAFKA_PRINCIPAL''),
      (''service_name'', ''KAFKA_SERVICE_NAME''),
      (''jaas_config_path'', ''KAFKA_JAAS_CONFIG_PATH''),
      (''consumer_group_id'', ''KAFKA_CONSUMER_GROUP_ID''),
      (''auto_offset_reset'', ''KAFKA_AUTO_OFFSET_RESET''),
      (''max_poll_records'', ''KAFKA_MAX_POLL_RECORDS''),
      (''session_timeout_ms'', ''KAFKA_SESSION_TIMEOUT_MS''),
      (''heartbeat_interval_ms'', ''KAFKA_HEARTBEAT_INTERVAL_MS'')]"

definition env_config :: "(string \<rightharpoonup> string) \<Rightarrow> (string \<times> string option) list" where
  "env_config environ = map (\<lambda>(key, var). (key, environ var)) env_vars"

text \<open>The loop \<^verbatim>\<open>for key, value in env_config.items(): if value is not None: ...\<close>.\<close>

fun overlay_env :: "(string \<times> string option) list \<Rightarrow> config \<Rightarrow> config" where
  "overlay_env [] config = config"
| "overlay_env ((key, value) # rest) config =
     overlay_env rest (case value of None \<Rightarrow> config | Some v \<Rightarrow> config(key \<mapsto> VStr v))"

definition setdefault :: "string \<Rightarrow> cfg_value \<Rightarrow> config \<Rightarrow> config" where
  "setdefault key d config = (case config key of None \<Rightarrow> config(key \<mapsto> d) | Some _ \<Rightarrow> config)"

definition set_defaults :: "config \<Rightarrow> config" where
  "set_defaults config =
     setdefault ''heartbeat_interval_ms'' (VStr ''3000'')
       (setdefault ''session_timeout_ms'' (VStr ''30000'')
         (setdefault ''max_poll_records'' (VStr ''500'')
           (setdefault ''auto_offset_reset'' (VStr ''earliest'')
             (setdefault ''consumer_group_id'' (VStr ''kafka-utility-group'')
               (setdefault ''service_name'' (VStr ''kafka'') config)))))"

text \<open>\<^verbatim>\<open>if key in config: config[key] = int(config[key])\<close>.\<close>

definition convert_numeric :: "string \<Rightarrow> config \<Rightarrow> py_exception + config" where
  "convert_numeric key config =
     (case config key of
        None \<Rightarrow> Inr config
      | Some v \<Rightarrow> (case py_int_value v of
                     Inl e \<Rightarrow> Inl e
                   | Inr i \<Rightarrow> Inr (config(key \<mapsto> VInt i))))"

text \<open>
  The first block of \<^verbatim>\<open>_load_config\<close>: the \<^verbatim>\<open>kafka\<close> section of the file, when a
  non-empty path is given, the path exists and the parser knows the section. An
  exception of the parser is not caught.
\<close>

definition file_section ::
  "(cfg_value \<Rightarrow> bool) \<Rightarrow> (string \<Rightarrow> py_exception + ini) \<Rightarrow> string option \<Rightarrow>
   py_exception + (string \<rightharpoonup> string)"
where
  "file_section path_exists parser_read config_file =
     (case config_file of
        None \<Rightarrow> Inr Map.empty
      | Some f \<Rightarrow>
          if f \<noteq> [] \<and> path_exists (VStr f)
          then (case parser_read f of
                  Inl e \<Rightarrow> Inl e
                | Inr parser \<Rightarrow>
                    (case parser ''kafka'' of
                       None \<Rightarrow> Inr Map.empty
                     | Some section \<Rightarrow> Inr section))
          else Inr Map.empty)"

text \<open>
  The configuration before the numeric conversion: \<^verbatim>\<open>config.update\<close> with the section of
  the file, then the environment, then the defaults.
\<close>

definition merged_config ::
  "(cfg_value \<Rightarrow> bool) \<Rightarrow> (string \<Rightarrow> py_exception + ini) \<Rightarrow> (string \<rightharpoonup> string) \<Rightarrow>
   string option \<Rightarrow> py_exception + config"
where
  "merged_config path_exists parser_read environ config_file =
     (case file_section path_exists parser_read config_file of
        Inl e \<Rightarrow> Inl e
      | Inr section \<Rightarrow>
          Inr (set_defaults (overlay_env (env_config environ)
                 (\<lambda>key. map_option VStr (section key)))))"

definition load_config ::
  "(cfg_value \<Rightarrow> bool) \<Rightarrow> (string \<Rightarrow> py_exception + ini) \<Rightarrow> (string \<rightharpoonup> string) \<Rightarrow>
   string option \<Rightarrow> py_exception + config"
where
  "load_config path_exists parser_read environ config_file =
     (case merged_config path_exists parser_read environ config_file of
        Inl e \<Rightarrow> Inl e
      | Inr c0 \<Rightarrow>
          (case convert_numeric ''max_poll_records'' c0 of
             Inl e \<Rightarrow> Inl e
           | Inr c1 \<Rightarrow>
               (case convert_numeric ''session_timeout_ms'' c1 of
                  Inl e \<Rightarrow> Inl e
                | Inr c2 \<Rightarrow> convert_numeric ''heartbeat_interval_ms'' c2)))"

section \<open>Validation: \<^verbatim>\<open>_validate_config\<close>\<close>

definition required_params :: "string list" where
  "required_params = [''bootstrap_servers'', ''topic'', ''keytab_path'', ''principal'']"

definition missing_params :: "config \<Rightarrow> string list" where
  "missing_params config = filter (\<lambda>param. \<not> truthy (config param)) required_params"

definition validate_config :: "(cfg_value \<Rightarrow> bool) \<Rightarrow> config \<Rightarrow> py_exception + unit" where
  "validate_config path_exists config =
     (if missing_params config \<noteq> [] then Inl (MissingRequired (missing_params config))
      else (case config ''keytab_path'' of
              None \<Rightarrow> Inl (KeyError ''keytab_path'')
            | Some keytab \<Rightarrow>
                if \<not> path_exists keytab then Inl (KeytabNotFound keytab)
                else (case config ''bootstrap_servers'' of
                        None \<Rightarrow> Inl (KeyError ''bootstrap_servers'')
                      | Some servers \<Rightarrow>
                          if \<not> truthy (Some servers) then Inl EmptyBrokerList
                          else Inr ())))"

section \<open>The session: state, external collaborators, log\<close>

text \<open>
  \<^verbatim>\<open>str()\<close> of a configuration value, as the f-strings of the source apply it.
\<close>

fun str_nat :: "nat \<Rightarrow> string" where
  "str_nat n = (if n < 10 then [char_of (48 + n)] else str_nat (n div 10) @ [char_of (48 + n mod 10)])"

declare str_nat.simps [simp del]

definition str_int :: "int \<Rightarrow> string" where
  "str_int i = (if i < 0 then CHR ''-'' # str_nat (nat (- i)) else str_nat (nat i))"

fun py_str :: "cfg_value \<Rightarrow> string" where
  "py_str (VStr s) = s"
| "py_str (VInt i) = str_int i"

text \<open>\<^verbatim>\<open>s.split(',')\<close>.\<close>

fun split_on :: "char \<Rightarrow> string \<Rightarrow> string list" where
  "split_on c [] = [] # []"
| "split_on c (x # xs) =
     (if x = c then [] # split_on c xs
      else (case split_on c xs of
              [] \<Rightarrow> [x] # []
            | w # ws \<Rightarrow> (x # w) # ws))"

text \<open>
  A client object of the Kafka library is known by its identity only. The values that
  travel through the utility are deserialised JSON documents.
\<close>

type_synonym handle = nat

datatype json = JNull | JBool bool | JNum int | JStr string | JList "json list"
  | JDict "(string \<times> json) list"

record consumer_record =
  rec_topic :: string
  rec_partition :: int
  rec_offset :: int
  rec_key :: "string option"
  rec_value :: json

record record_metadata =
  md_topic :: string
  md_partition :: int
  md_offset :: int

text \<open>
  What \<^verbatim>\<open>consumer.poll\<close> returns: a dictionary from topic partition to the records of
  that partition, as the list of its items in iteration order. The empty dictionary is
  the empty list.
\<close>

type_synonym topic_partition = "string \<times> int"

type_synonym batch = "(topic_partition \<times> consumer_record list) list"

text \<open>One constructor for each call of the logger in the source.\<close>

datatype log_entry =
    WarnGssapiUnavailable
  | InfoKerberosConfigured
  | InfoJaasCreated string
  | InfoProducerCreated cfg_value
  | InfoConsumerCreated cfg_value
  | InfoMessageSent record_metadata
  | ErrorProduceFailed cfg_value py_exception
  | InfoReceived consumer_record
  | ErrorHandler py_exception
  | ErrorConsumeFailed cfg_value py_exception
  | InfoClosedProducer cfg_value
  | InfoClosedConsumer cfg_value
  | ErrorClosing py_exception

datatype role = Producer | Consumer

text \<open>
  The object and the part of the process it touches. \<open>config\<close>, \<open>producers\<close> and
  \<open>consumers\<close> are the attributes of \<^verbatim>\<open>self\<close>; the caches are dictionaries keyed by the
  topic, kept as the list of their items in insertion order. \<open>os_environ\<close> is
  \<^verbatim>\<open>os.environ\<close>, \<open>written_files\<close> the files written so far, \<open>log_lines\<close> what the logger
  received. \<open>constructed\<close> records every call of a client constructor and
  \<open>closed_handles\<close> every client closed.
\<close>

record session =
  config :: config
  producers :: "(cfg_value \<times> handle) list"
  consumers :: "(cfg_value \<times> handle) list"
  os_environ :: "string \<rightharpoonup> string"
  written_files :: "string \<rightharpoonup> string"
  log_lines :: "log_entry list"
  constructed :: "(role \<times> cfg_value) list"
  closed_handles :: "handle list"

text \<open>
  Keyword arguments handed to the client constructors. The serialisers are Python
  functions; they are passed by name.
\<close>

datatype kwarg = KStr string | KInt int | KBool bool | KList "string list" | KValue cfg_value
  | KCallable string

type_synonym kwargs = "(string \<times> kwarg) list"

text \<open>
  What the module finds around it: the two import flags, \<^verbatim>\<open>load_dotenv\<close>,
  \<^verbatim>\<open>os.path.exists\<close>, \<^verbatim>\<open>ConfigParser.read\<close>, the outcome of writing a file, and
  \<^verbatim>\<open>os.getuid\<close>.
\<close>

record platform =
  DOTENV_AVAILABLE :: bool
  GSSAPI_AVAILABLE :: bool
  load_dotenv :: "(string \<rightharpoonup> string) \<Rightarrow> (string \<rightharpoonup> string)"
  path_exists :: "cfg_value \<Rightarrow> bool"
  parser_read :: "string \<Rightarrow> py_exception + ini"
  write_file :: "string \<Rightarrow> string \<Rightarrow> py_exception option"
  getuid :: nat

section \<open>Credential setup: \<^verbatim>\<open>_setup_kerberos\<close> and \<^verbatim>\<open>_create_jaas_config\<close>\<close>

definition subscript :: "config \<Rightarrow> string \<Rightarrow> py_exception + cfg_value" where
  "subscript c key = (case c key of None \<Rightarrow> Inl (KeyError key) | Some v \<Rightarrow> Inr v)"

definition jaas_config_content :: "cfg_value \<Rightarrow> cfg_value \<Rightarrow> string" where
  "jaas_config_content keytab princ =
     [CHR 0x0A] @ ''KafkaClient {'' @ [CHR 0x0A]
     @ ''    com.sun.security.auth.module.Krb5LoginModule required'' @ [CHR 0x0A]
     @ ''    useKeyTab=true'' @ [CHR 0x0A]
     @ ''    storeKey=true'' @ [CHR 0x0A]
     @ ''    keyTab='' @ [CHR 0x22] @ py_str keytab @ [CHR 0x22] @ [CHR 0x0A]
     @ ''    principal='' @ [CHR 0x22] @ py_str princ @ [CHR 0x22] @ '';'' @ [CHR 0x0A]
     @ ''};'' @ [CHR 0x0A]"

definition jaas_config_path :: string where
  "jaas_config_path = ''/tmp/kafka_jaas.conf''"

definition java_opts :: "string \<Rightarrow> string" where
  "java_opts path = ''-Djava.security.auth.login.config='' @ path"

text \<open>
  \<^verbatim>\<open>_create_jaas_config\<close>. The two subscripts of the f-string are evaluated before the
  \<^verbatim>\<open>try\<close>, so their \<^verbatim>\<open>KeyError\<close> is not wrapped here.
\<close>

definition create_jaas_config ::
  "(string \<Rightarrow> string \<Rightarrow> py_exception option) \<Rightarrow> session \<Rightarrow> py_exception option \<times> session"
where
  "create_jaas_config write s =
     (case subscript (config s) ''keytab_path'' of
        Inl e \<Rightarrow> (Some e, s)
      | Inr keytab \<Rightarrow>
          (case subscript (config s) ''principal'' of
             Inl e \<Rightarrow> (Some e, s)
           | Inr princ \<Rightarrow>
               (case write jaas_config_path (jaas_config_content keytab princ) of
                  Some e \<Rightarrow> (Some (JaasCreateFailed e), s)
                | None \<Rightarrow>
                    (None,
                     s\<lparr>written_files :=
                         (written_files s)(jaas_config_path \<mapsto> jaas_config_content keytab princ),
                       os_environ := (os_environ s)(''JAVA_OPTS'' \<mapsto> java_opts jaas_config_path),
                       config := (config s)(''jaas_config_path'' \<mapsto> VStr jaas_config_path),
                       log_lines := log_lines s @ [InfoJaasCreated jaas_config_path]\<rparr>))))"

definition setup_kerberos ::
  "bool \<Rightarrow> nat \<Rightarrow> (string \<Rightarrow> string \<Rightarrow> py_exception option) \<Rightarrow> session \<Rightarrow>
   py_exception option \<times> session"
where
  "setup_kerberos gssapi_available uid write s =
     (let s1 = (if \<not> gssapi_available
                then s\<lparr>log_lines := log_lines s @ [WarnGssapiUnavailable]\<rparr> else s);
          s2 = s1\<lparr>os_environ := (os_environ s1)
                   (''KRB5_CONFIG'' \<mapsto> ''/etc/krb5.conf'',
                    ''KRB5CCNAME'' \<mapsto> ''FILE:/tmp/krb5cc_'' @ str_nat uid)\<rparr>
      in if \<not> truthy (config s2 ''jaas_config_path'')
         then (case create_jaas_config write s2 of
                 (Some e, s3) \<Rightarrow> (Some (KerberosSetupFailed e), s3)
               | (None, s3) \<Rightarrow> (None, s3\<lparr>log_lines := log_lines s3 @ [InfoKerberosConfigured]\<rparr>))
         else (case subscript (config s2) ''jaas_config_path'' of
                 Inl e \<Rightarrow> (Some (KerberosSetupFailed e), s2)
               | Inr path \<Rightarrow>
                   (None,
                    s2\<lparr>os_environ := (os_environ s2)(''JAVA_OPTS'' \<mapsto> java_opts (py_str path)),
                       log_lines := log_lines s2 @ [InfoKerberosConfigured]\<rparr>)))"

section \<open>Construction of the session: \<^verbatim>\<open>__init__\<close>\<close>

text \<open>
  When \<^verbatim>\<open>python-dotenv\<close> is missing, \<^verbatim>\<open>__init__\<close> calls \<^verbatim>\<open>self.logger.warning\<close> before
  any logger exists, which raises \<^verbatim>\<open>AttributeError\<close>. Otherwise: load the configuration,
  create the empty caches, validate, set up Kerberos. On failure no object reaches the
  caller; the second component then only tells what happened to the process.
\<close>

definition init ::
  "platform \<Rightarrow> string option \<Rightarrow> (string \<rightharpoonup> string) \<Rightarrow> py_exception option \<times> session"
where
  "init pf config_file environ0 =
     (let s0 = \<lparr>config = Map.empty, producers = [], consumers = [], os_environ = environ0,
                written_files = Map.empty, log_lines = [], constructed = [],
                closed_handles = []\<rparr>
      in if \<not> DOTENV_AVAILABLE pf then (Some (AttributeError ''logger''), s0)
         else
           (let s1 = s0\<lparr>os_environ := load_dotenv pf environ0\<rparr>
            in case load_config (path_exists pf) (parser_read pf) (os_environ s1) config_file of
                 Inl e \<Rightarrow> (Some e, s1)
               | Inr cfg \<Rightarrow>
                   (let s2 = s1\<lparr>config := cfg\<rparr>
                    in case validate_config (path_exists pf) (config s2) of
                         Inl e \<Rightarrow> (Some e, s2)
                       | Inr _ \<Rightarrow>
                           setup_kerberos (GSSAPI_AVAILABLE pf) (getuid pf) (write_file pf) s2)))"

section \<open>Client handles: \<^verbatim>\<open>get_producer\<close> and \<^verbatim>\<open>get_consumer\<close>\<close>

text \<open>\<^verbatim>\<open>topic = topic or self.config['topic']\<close>.\<close>

definition topic_or_default :: "cfg_value option \<Rightarrow> config \<Rightarrow> py_exception + cfg_value" where
  "topic_or_default topic c =
     (case topic of
        None \<Rightarrow> subscript c ''topic''
      | Some t \<Rightarrow> if truthy (Some t) then Inr t else subscript c ''topic'')"

text \<open>\<^verbatim>\<open>self.config['bootstrap_servers'].split(',')\<close>; an integer has no \<^verbatim>\<open>split\<close>.\<close>

definition bootstrap_list :: "config \<Rightarrow> py_exception + string list" where
  "bootstrap_list c =
     (case subscript c ''bootstrap_servers'' of
        Inl e \<Rightarrow> Inl e
      | Inr (VStr s) \<Rightarrow> Inr (split_on CHR '','' s)
      | Inr (VInt i) \<Rightarrow> Inl (AttributeError ''split''))"

definition get_producer_config :: "config \<Rightarrow> py_exception + kwargs" where
  "get_producer_config c =
     (case bootstrap_list c of
        Inl e \<Rightarrow> Inl e
      | Inr servers \<Rightarrow>
          (case subscript c ''service_name'' of
             Inl e \<Rightarrow> Inl e
           | Inr service \<Rightarrow>
               Inr [(''bootstrap_servers'', KList servers),
                    (''security_protocol'', KStr ''SASL_PLAINTEXT''),
                    (''sasl_mechanism'', KStr ''GSSAPI''),
                    (''sasl_kerberos_service_name'', KValue service),
                    (''value_serializer'', KCallable ''json.dumps(v).encode''),
                    (''key_serializer'', KCallable ''k.encode if k else None''),
                    (''acks'', KStr ''all''),
                    (''retries'', KInt 3),
                    (''max_in_flight_requests_per_connection'', KInt 1)]))"

definition get_consumer_config :: "config \<Rightarrow> py_exception + kwargs" where
  "get_consumer_config c =
     (case bootstrap_list c of
        Inl e \<Rightarrow> Inl e
      | Inr servers \<Rightarrow>
     (case subscript c ''service_name'' of
        Inl e \<Rightarrow> Inl e
      | Inr service \<Rightarrow>
     (case subscript c ''consumer_group_id'' of
        Inl e \<Rightarrow> Inl e
      | Inr group_id \<Rightarrow>
     (case subscript c ''auto_offset_reset'' of
        Inl e \<Rightarrow> Inl e
      | Inr offset_reset \<Rightarrow>
     (case subscript c ''max_poll_records'' of
        Inl e \<Rightarrow> Inl e
      | Inr max_poll \<Rightarrow>
     (case subscript c ''session_timeout_ms'' of
        Inl e \<Rightarrow> Inl e
      | Inr session_timeout \<Rightarrow>
     (case subscript c ''heartbeat_interval_ms'' of
        Inl e \<Rightarrow> Inl e
      | Inr heartbeat \<Rightarrow>
          Inr [(''bootstrap_servers'', KList servers),
               (''security_protocol'', KStr ''SASL_PLAINTEXT''),
               (''sasl_mechanism'', KStr ''GSSAPI''),
               (''sasl_kerberos_service_name'', KValue service),
               (''group_id'', KValue group_id),
               (''auto_offset_reset'', KValue offset_reset),
               (''enable_auto_commit'', KBool True),
               (''auto_commit_interval_ms'', KInt 1000),
               (''max_poll_records'', KValue max_poll),
               (''session_timeout_ms'', KValue session_timeout),
               (''heartbeat_interval_ms'', KValue heartbeat),
               (''value_deserializer'', KCallable ''json.loads(v.decode) if v else None''),
               (''key_deserializer'', KCallable ''k.decode if k else None'')])))))))"

text \<open>
  \<^verbatim>\<open>get_producer\<close>. \<open>KafkaProducer\<close> is what the constructor of the library does with
  the keyword arguments on this call: it raises or returns a new client. The first
  line of the method is outside its \<^verbatim>\<open>try\<close>; everything raised inside is wrapped.
\<close>

definition get_producer ::
  "(kwargs \<Rightarrow> py_exception + handle) \<Rightarrow> cfg_value option \<Rightarrow> session \<Rightarrow>
   (py_exception + handle) \<times> session"
where
  "get_producer KafkaProducer topic s =
     (case topic_or_default topic (config s) of
        Inl e \<Rightarrow> (Inl e, s)
      | Inr t \<Rightarrow>
          (case map_of (producers s) t of
             Some producer \<Rightarrow> (Inr producer, s)
           | None \<Rightarrow>
               (case get_producer_config (config s) of
                  Inl e \<Rightarrow> (Inl (ProducerCreateFailed t e), s)
                | Inr producer_config \<Rightarrow>
                    (case KafkaProducer producer_config of
                       Inl e \<Rightarrow>
                         (Inl (ProducerCreateFailed t e),
                          s\<lparr>constructed := constructed s @ [(Producer, t)]\<rparr>)
                     | Inr producer \<Rightarrow>
                         (Inr producer,
                          s\<lparr>producers := producers s @ [(t, producer)],
                            log_lines := log_lines s @ [InfoProducerCreated t],
                            constructed := constructed s @ [(Producer, t)]\<rparr>)))))"

text \<open>\<^verbatim>\<open>get_consumer\<close>; the constructor also receives the topic.\<close>

definition get_consumer ::
  "(cfg_value \<Rightarrow> kwargs \<Rightarrow> py_exception + handle) \<Rightarrow> cfg_value option \<Rightarrow> session \<Rightarrow>
   (py_exception + handle) \<times> session"
where
  "get_consumer KafkaConsumer topic s =
     (case topic_or_default topic (config s) of
        Inl e \<Rightarrow> (Inl e, s)
      | Inr t \<Rightarrow>
          (case map_of (consumers s) t of
             Some consumer \<Rightarrow> (Inr consumer, s)
           | None \<Rightarrow>
               (case get_consumer_config (config s) of
                  Inl e \<Rightarrow> (Inl (ConsumerCreateFailed t e), s)
                | Inr consumer_config \<Rightarrow>
                    (case KafkaConsumer t consumer_config of
                       Inl e \<Rightarrow>
                         (Inl (ConsumerCreateFailed t e),
                          s\<lparr>constructed := constructed s @ [(Consumer, t)]\<rparr>)
                     | Inr consumer \<Rightarrow>
                         (Inr consumer,
                          s\<lparr>consumers := consumers s @ [(t, consumer)],
                            log_lines := log_lines s @ [InfoConsumerCreated t],
                            constructed := constructed s @ [(Consumer, t)]\<rparr>)))))"

section \<open>Message operations\<close>

text \<open>
  \<^verbatim>\<open>produce_message\<close>. \<open>send\<close> is \<^verbatim>\<open>producer.send(...)\<close> followed by
  \<^verbatim>\<open>future.get(timeout=10)\<close>: it raises or returns the metadata of the record.
\<close>

definition produce_message ::
  "(kwargs \<Rightarrow> py_exception + handle) \<Rightarrow>
   (handle \<Rightarrow> cfg_value \<Rightarrow> json \<Rightarrow> string option \<Rightarrow> py_exception + record_metadata) \<Rightarrow>
   json \<Rightarrow> string option \<Rightarrow> cfg_value option \<Rightarrow> session \<Rightarrow> (py_exception + bool) \<times> session"
where
  "produce_message KafkaProducer send message key topic s =
     (case topic_or_default topic (config s) of
        Inl e \<Rightarrow> (Inl e, s)
      | Inr t \<Rightarrow>
          (case get_producer KafkaProducer (Some t) s of
             (Inl e, s1) \<Rightarrow>
               (Inl (ProductionFailed e),
                s1\<lparr>log_lines := log_lines s1 @ [ErrorProduceFailed t e]\<rparr>)
           | (Inr producer, s1) \<Rightarrow>
               (case send producer t message key of
                  Inl e \<Rightarrow>
                    (Inl (ProductionFailed e),
                     s1\<lparr>log_lines := log_lines s1 @ [ErrorProduceFailed t e]\<rparr>)
                | Inr record_metadata \<Rightarrow>
                    (Inr True,
                     s1\<lparr>log_lines := log_lines s1 @ [InfoMessageSent record_metadata]\<rparr>))))"

text \<open>
  The state of the loop of \<^verbatim>\<open>consume_messages\<close>: the list \<^verbatim>\<open>messages\<close>, the counter
  \<^verbatim>\<open>message_count\<close>, the state of the handler (a callback may keep state between its
  calls) and the log.
\<close>

record 'h loop_state =
  messages :: "json list"
  message_count :: int
  handler_state :: 'h
  loop_log :: "log_entry list"

text \<open>
  A handler takes its state, the message and the record; it returns the exception it
  raised, if any, and its new state. Only exceptions below \<^verbatim>\<open>Exception\<close> are modelled.
\<close>

type_synonym 'h handler = "'h \<Rightarrow> json \<Rightarrow> consumer_record \<Rightarrow> py_exception option \<times> 'h"

text \<open>\<^verbatim>\<open>max_messages and message_count >= max_messages\<close>: \<^verbatim>\<open>None\<close> and \<^verbatim>\<open>0\<close> are falsy.\<close>

definition cap_reached :: "int option \<Rightarrow> int \<Rightarrow> bool" where
  "cap_reached max_messages count =
     (case max_messages of None \<Rightarrow> False | Some m \<Rightarrow> m \<noteq> 0 \<and> count \<ge> m)"

text \<open>The body of the inner loop up to the test of the cap.\<close>

definition receive :: "'h handler option \<Rightarrow> consumer_record \<Rightarrow> 'h loop_state \<Rightarrow> 'h loop_state" where
  "receive message_handler r st =
     (let message = rec_value r;
          st1 = st\<lparr>messages := messages st @ [message],
                   message_count := message_count st + 1,
                   loop_log := loop_log st @ [InfoReceived r]\<rparr>
      in case message_handler of
           None \<Rightarrow> st1
         | Some h \<Rightarrow>
             (case h (handler_state st1) message r of
                (None, hs) \<Rightarrow> st1\<lparr>handler_state := hs\<rparr>
              | (Some e, hs) \<Rightarrow>
                  st1\<lparr>handler_state := hs, loop_log := loop_log st1 @ [ErrorHandler e]\<rparr>))"

text \<open>\<^verbatim>\<open>for record in records: ...\<close>; the \<^verbatim>\<open>break\<close> leaves this loop only.\<close>

fun process_records ::
  "int option \<Rightarrow> 'h handler option \<Rightarrow> consumer_record list \<Rightarrow> 'h loop_state \<Rightarrow> 'h loop_state"
where
  "process_records max_messages message_handler [] st = st"
| "process_records max_messages message_handler (r # records) st =
     (let st1 = receive message_handler r st
      in if cap_reached max_messages (message_count st1) then st1
         else process_records max_messages message_handler records st1)"

text \<open>\<^verbatim>\<open>for tp, records in message_batch.items(): ...\<close>.\<close>

fun process_batch ::
  "int option \<Rightarrow> 'h handler option \<Rightarrow> batch \<Rightarrow> 'h loop_state \<Rightarrow> 'h loop_state"
where
  "process_batch max_messages message_handler [] st = st"
| "process_batch max_messages message_handler ((tp, records) # rest) st =
     process_batch max_messages message_handler rest
       (process_records max_messages message_handler records st)"

text \<open>
  The \<^verbatim>\<open>while True\<close> loop. \<open>poll n\<close> is what the \<open>n\<close>-th call of \<^verbatim>\<open>consumer.poll\<close> does.
  The loop need not end; the result is \<open>None\<close> then. Otherwise it is the exception that
  left the loop, if any, the final state and the number of polls made.
\<close>

partial_function (option) consume_loop ::
  "(nat \<Rightarrow> py_exception + batch) \<Rightarrow> int option \<Rightarrow> 'h handler option \<Rightarrow> nat \<Rightarrow> 'h loop_state \<Rightarrow>
   (py_exception option \<times> 'h loop_state \<times> nat) option"
where
  "consume_loop poll max_messages message_handler n st =
     (if cap_reached max_messages (message_count st) then Some (None, st, n)
      else (case poll n of
              Inl e \<Rightarrow> Some (Some e, st, Suc n)
            | Inr message_batch \<Rightarrow>
                (let st1 = process_batch max_messages message_handler message_batch st
                 in if message_batch = [] then Some (None, st1, Suc n)
                    else consume_loop poll max_messages message_handler (Suc n) st1)))"

declare consume_loop.simps [code]

text \<open>
  What a call of \<^verbatim>\<open>consume_messages\<close> gives back: the list or the exception, the number
  of polls it made, and the state the handler is left in.
\<close>

record 'h consumed =
  outcome :: "py_exception + json list"
  polls :: nat
  handler_after :: 'h

text \<open>
  \<^verbatim>\<open>consume_messages\<close>. \<open>poll consumer timeout_ms n\<close> is the \<open>n\<close>-th poll of this call on
  the client \<open>consumer\<close>.
\<close>

definition consume_messages ::
  "(cfg_value \<Rightarrow> kwargs \<Rightarrow> py_exception + handle) \<Rightarrow>
   (handle \<Rightarrow> int \<Rightarrow> nat \<Rightarrow> py_exception + batch) \<Rightarrow>
   cfg_value option \<Rightarrow> 'h handler option \<Rightarrow> 'h \<Rightarrow> int option \<Rightarrow> int \<Rightarrow> session \<Rightarrow>
   ('h consumed \<times> session) option"
where
  "consume_messages KafkaConsumer poll topic message_handler h0 max_messages timeout_ms s =
     (case topic_or_default topic (config s) of
        Inl e \<Rightarrow> Some (\<lparr>outcome = Inl e, polls = 0, handler_after = h0\<rparr>, s)
      | Inr t \<Rightarrow>
          (case get_consumer KafkaConsumer (Some t) s of
             (Inl e, s1) \<Rightarrow>
               Some (\<lparr>outcome = Inl (ConsumptionFailed e), polls = 0, handler_after = h0\<rparr>,
                     s1\<lparr>log_lines := log_lines s1 @ [ErrorConsumeFailed t e]\<rparr>)
           | (Inr consumer, s1) \<Rightarrow>
               (case consume_loop (poll consumer timeout_ms) max_messages message_handler 0
                       \<lparr>messages = [], message_count = 0, handler_state = h0,
                        loop_log = log_lines s1\<rparr> of
                  None \<Rightarrow> None
                | Some (None, st, n) \<Rightarrow>
                    Some (\<lparr>outcome = Inr (messages st), polls = n,
                           handler_after = handler_state st\<rparr>,
                          s1\<lparr>log_lines := loop_log st\<rparr>)
                | Some (Some e, st, n) \<Rightarrow>
                    Some (\<lparr>outcome = Inl (ConsumptionFailed e), polls = n,
                           handler_after = handler_state st\<rparr>,
                          s1\<lparr>log_lines := loop_log st @ [ErrorConsumeFailed t e]\<rparr>))))"

section \<open>Shutdown: \<^verbatim>\<open>close\<close>\<close>

text \<open>
  One of the two loops of \<^verbatim>\<open>close\<close>: close each client and log it; an exception of
  \<^verbatim>\<open>client.close()\<close> ends the loop.
\<close>

fun close_each ::
  "(handle \<Rightarrow> py_exception option) \<Rightarrow> (cfg_value \<Rightarrow> log_entry) \<Rightarrow> (cfg_value \<times> handle) list \<Rightarrow>
   session \<Rightarrow> py_exception option \<times> session"
where
  "close_each client_close entry [] s = (None, s)"
| "close_each client_close entry ((t, client) # rest) s =
     (case client_close client of
        Some e \<Rightarrow> (Some e, s)
      | None \<Rightarrow>
          close_each client_close entry rest
            (s\<lparr>closed_handles := closed_handles s @ [client],
               log_lines := log_lines s @ [entry t]\<rparr>))"

text \<open>
  \<^verbatim>\<open>close\<close>: the exception of a client is logged and swallowed, and the caches are then
  left as they are.
\<close>

definition close :: "(handle \<Rightarrow> py_exception option) \<Rightarrow> session \<Rightarrow> session" where
  "close client_close s =
     (case close_each client_close InfoClosedProducer (producers s) s of
        (Some e, s1) \<Rightarrow> s1\<lparr>log_lines := log_lines s1 @ [ErrorClosing e]\<rparr>
      | (None, s1) \<Rightarrow>
          (case close_each client_close InfoClosedConsumer (consumers s1) s1 of
             (Some e, s2) \<Rightarrow> s2\<lparr>log_lines := log_lines s2 @ [ErrorClosing e]\<rparr>
           | (None, s2) \<Rightarrow> s2\<lparr>producers := [], consumers := []\<rparr>))"

section \<open>The documented configuration, for comparison\<close>

text \<open>
  The three keys that \<^verbatim>\<open>_load_config\<close> converts with \<^verbatim>\<open>int()\<close>, and the defaults as
  the documentation gives them: strings for the textual settings, integers for the
  numeric ones, nothing for the required settings and the JAAS path.
\<close>

definition numeric_params :: "string list" where
  "numeric_params = [''max_poll_records'', ''session_timeout_ms'', ''heartbeat_interval_ms'']"

definition documented_default :: "string \<Rightarrow> cfg_value option" where
  "documented_default key =
     (if key = ''service_name'' then Some (VStr ''kafka'')
      else if key = ''consumer_group_id'' then Some (VStr ''kafka-utility-group'')
      else if key = ''auto_offset_reset'' then Some (VStr ''earliest'')
      else if key = ''max_poll_records'' then Some (VInt 500)
      else if key = ''session_timeout_ms'' then Some (VInt 30000)
      else if key = ''heartbeat_interval_ms'' then Some (VInt 3000)
      else None)"

text \<open>
  \<open>resolved_as key raw r\<close>: the resolved entry \<open>r\<close> of \<open>key\<close> is the source string
  \<open>raw\<close>, read as an integer when the key is numeric.
\<close>

definition resolved_as :: "string \<Rightarrow> string \<Rightarrow> cfg_value option \<Rightarrow> bool" where
  "resolved_as key raw r \<longleftrightarrow>
     (if key \<in> set numeric_params
      then (case py_int raw of None \<Rightarrow> False | Some i \<Rightarrow> r = Some (VInt i))
      else r = Some (VStr raw))"

definition absent_or_empty :: "config \<Rightarrow> string \<Rightarrow> bool" where
  "absent_or_empty c param \<longleftrightarrow> c param = None \<or> c param = Some (VStr [])"

definition present_nonempty :: "config \<Rightarrow> string \<Rightarrow> bool" where
  "present_nonempty c param \<longleftrightarrow>
     (case c param of Some (VStr s) \<Rightarrow> s \<noteq> [] | _ \<Rightarrow> False)"

text \<open>The default strings that \<^verbatim>\<open>setdefault\<close> stores, by key.\<close>

definition default_raw :: "string \<Rightarrow> string option" where
  "default_raw key =
     (if key = ''service_name'' then Some ''kafka''
      else if key = ''consumer_group_id'' then Some ''kafka-utility-group''
      else if key = ''auto_offset_reset'' then Some ''earliest''
      else if key = ''max_poll_records'' then Some ''500''
      else if key = ''session_timeout_ms'' then Some ''30000''
      else if key = ''heartbeat_interval_ms'' then Some ''3000''
      else None)"

section \<open>The polling loop, for comparison\<close>

text \<open>
  Notions for stating what the loop of \<^verbatim>\<open>consume_messages\<close> computes: the records of a
  batch in iteration order, the records that \<open>k\<close> polls starting with poll \<open>i\<close> deliver
  (a poll that raises delivers none), and the handling of a list of records one after
  the other with no cap.
\<close>

definition batch_records :: "batch \<Rightarrow> consumer_record list" where
  "batch_records b = concat (map snd b)"

definition records_at :: "(nat \<Rightarrow> py_exception + batch) \<Rightarrow> nat \<Rightarrow> consumer_record list" where
  "records_at poll i = (case poll i of Inl e \<Rightarrow> [] | Inr b \<Rightarrow> batch_records b)"

definition polled_records ::
  "(nat \<Rightarrow> py_exception + batch) \<Rightarrow> nat \<Rightarrow> nat \<Rightarrow> consumer_record list" where
  "polled_records poll i k = concat (map (records_at poll) [i..<i + k])"

definition receive_all ::
  "'h handler option \<Rightarrow> consumer_record list \<Rightarrow> 'h loop_state \<Rightarrow> 'h loop_state" where
  "receive_all message_handler records st = foldl (\<lambda>st r. receive message_handler r st) st records"

text \<open>
  The log lines that handling a list of records adds: for each record the line of its
  receipt, followed by the line of the handler's exception when it raised one.
\<close>

fun handled_lines :: "'h handler option \<Rightarrow> 'h \<Rightarrow> consumer_record list \<Rightarrow> log_entry list" where
  "handled_lines message_handler hs [] = []"
| "handled_lines None hs (r # records) = InfoReceived r # handled_lines None hs records"
| "handled_lines (Some h) hs (r # records) =
     (case h hs (rec_value r) r of
        (None, hs') \<Rightarrow> InfoReceived r # handled_lines (Some h) hs' records
      | (Some e, hs') \<Rightarrow> InfoReceived r # ErrorHandler e # handled_lines (Some h) hs' records)"

text \<open>The projection of a result of \<^verbatim>\<open>consume_messages\<close> that its caller sees.\<close>

definition returned :: "('h consumed \<times> session) option \<Rightarrow> ((py_exception + json list) \<times> nat) option" where
  "returned res = map_option (\<lambda>(r, s). (outcome r, polls r)) res"

section \<open>Sample inputs\<close>

definition every_path_exists :: "cfg_value \<Rightarrow> bool" where
  "every_path_exists p = True"

definition sample_ini :: ini where
  "sample_ini =
     [''kafka'' \<mapsto> [''bootstrap_servers'' \<mapsto> ''localhost:9092'', ''topic'' \<mapsto> ''events'',
                    ''session_timeout_ms'' \<mapsto> ''45000''] ]"

definition sample_parser :: "string \<Rightarrow> py_exception + ini" where
  "sample_parser f = Inr sample_ini"

definition sample_env :: "string \<rightharpoonup> string" where
  "sample_env =
     [''KAFKA_BOOTSTRAP_SERVERS'' \<mapsto> ''broker1:9092,broker2:9092'',
      ''KAFKA_KEYTAB_PATH'' \<mapsto> ''/etc/security/kafka.keytab'',
      ''KAFKA_PRINCIPAL'' \<mapsto> ''user@REALM'']"

definition env_empty_brokers :: "string \<rightharpoonup> string" where
  "env_empty_brokers =
     [''KAFKA_BOOTSTRAP_SERVERS'' \<mapsto> [],
      ''KAFKA_TOPIC'' \<mapsto> ''events'',
      ''KAFKA_KEYTAB_PATH'' \<mapsto> ''/etc/security/kafka.keytab'',
      ''KAFKA_PRINCIPAL'' \<mapsto> ''user@REALM'']"

definition env_bad_numeric :: "string \<rightharpoonup> string" where
  "env_bad_numeric =
     [''KAFKA_BOOTSTRAP_SERVERS'' \<mapsto> ''broker1:9092'',
      ''KAFKA_TOPIC'' \<mapsto> ''events'',
      ''KAFKA_KEYTAB_PATH'' \<mapsto> ''/etc/security/kafka.keytab'',
      ''KAFKA_PRINCIPAL'' \<mapsto> ''user@REALM'',
      ''KAFKA_MAX_POLL_RECORDS'' \<mapsto> ''abc'']"

definition sample_platform :: platform where
  "sample_platform =
     \<lparr>DOTENV_AVAILABLE = True, GSSAPI_AVAILABLE = True, load_dotenv = id,
      path_exists = every_path_exists, parser_read = sample_parser,
      write_file = (\<lambda>path content. None), getuid = 1000\<rparr>"

definition sample_config :: config where
  "sample_config =
     [''bootstrap_servers'' \<mapsto> VStr ''broker1:9092,broker2:9092'',
      ''topic'' \<mapsto> VStr ''events'',
      ''keytab_path'' \<mapsto> VStr ''/etc/security/kafka.keytab'',
      ''principal'' \<mapsto> VStr ''user@REALM'',
      ''service_name'' \<mapsto> VStr ''kafka'',
      ''consumer_group_id'' \<mapsto> VStr ''kafka-utility-group'',
      ''auto_offset_reset'' \<mapsto> VStr ''earliest'',
      ''max_poll_records'' \<mapsto> VInt 500,
      ''session_timeout_ms'' \<mapsto> VInt 30000,
      ''heartbeat_interval_ms'' \<mapsto> VInt 3000]"

definition sample_session :: session where
  "sample_session =
     \<lparr>config = sample_config, producers = [], consumers = [], os_environ = Map.empty,
      written_files = Map.empty, log_lines = [], constructed = [], closed_handles = []\<rparr>"

definition new_producer :: "kwargs \<Rightarrow> py_exception + handle" where
  "new_producer producer_config = Inr 1"

definition other_producer :: "kwargs \<Rightarrow> py_exception + handle" where
  "other_producer producer_config = Inr 3"

definition new_consumer :: "cfg_value \<Rightarrow> kwargs \<Rightarrow> py_exception + handle" where
  "new_consumer t consumer_config = Inr 2"

definition other_consumer :: "cfg_value \<Rightarrow> kwargs \<Rightarrow> py_exception + handle" where
  "other_consumer t consumer_config = Inr 4"

definition msg :: "int \<Rightarrow> int \<Rightarrow> string \<Rightarrow> consumer_record" where
  "msg p off v =
     \<lparr>rec_topic = ''events'', rec_partition = p, rec_offset = off, rec_key = None,
      rec_value = JStr v\<rparr>"

text \<open>A consumer that answers its first polls with the given batches and then with nothing.\<close>

definition polls_then_empty :: "batch list \<Rightarrow> handle \<Rightarrow> int \<Rightarrow> nat \<Rightarrow> py_exception + batch" where
  "polls_then_empty batches consumer timeout_ms n =
     (if n < length batches then Inr (batches ! n) else Inr [])"

definition three_in_two_polls :: "batch list" where
  "three_in_two_polls =
     [ [((''events'', 0), [msg 0 0 ''a'']), ((''events'', 1), [msg 1 0 ''b''])],
      [((''events'', 0), [msg 0 1 ''c''])] ]"

definition two_then_nothing :: "batch list" where
  "two_then_nothing = [ [((''events'', 0), [msg 0 0 ''a'', msg 0 1 ''b''])] ]"

definition two_partitions :: "batch list" where
  "two_partitions =
     [ [((''events'', 0), [msg 0 0 ''a'', msg 0 1 ''b'']),
       ((''events'', 1), [msg 1 0 ''c'', msg 1 1 ''d''])] ]"

text \<open>A handler that counts its calls and raises on every one; one that never raises.\<close>

definition failing_handler :: "nat handler" where
  "failing_handler calls message r = (Some (LibraryError ''handler failed''), Suc calls)"

definition quiet_handler :: "nat handler" where
  "quiet_handler calls message r = (None, Suc calls)"

section \<open>Precedence of environment, file and defaults\<close>

lemma overlay_env_apply:
  "distinct (map fst kvs) \<Longrightarrow>
   overlay_env kvs c k = (case map_of kvs k of Some (Some v) \<Rightarrow> Some (VStr v) | _ \<Rightarrow> c k)"
proof (induction kvs arbitrary: c)
  case Nil
  then show ?case by simp
next
  case (Cons kv kvs)
  obtain k' v' where kv: "kv = (k', v')" by (cases kv)
  from Cons.prems kv have d: "distinct (map fst kvs)" and nin: "k' \<notin> fst ` set kvs" by auto
  from nin have none: "map_of kvs k' = None" by (simp add: map_of_eq_None_iff)
  show ?case
    using Cons.IH[OF d] none kv by (auto split: option.splits)
qed

lemma distinct_env_config: "distinct (map fst (env_config environ))"
  by (simp add: env_config_def env_vars_def)

lemma map_of_env_config:
  "map_of (env_config environ) k = map_option environ (map_of env_vars k)"
  by (simp add: env_config_def map_of_map)

lemma setdefault_apply:
  "setdefault key d c k = (if k = key \<and> c key = None then Some d else c k)"
  by (auto simp: setdefault_def split: option.splits)

lemma set_defaults_apply:
  "set_defaults c k = (case c k of Some v \<Rightarrow> Some v | None \<Rightarrow> map_option VStr (default_raw k))"
  by (simp add: set_defaults_def setdefault_apply default_raw_def split: option.splits)


lemma merged_config_apply:
  assumes "merged_config pe pr environ f = Inr m" and "file_section pe pr f = Inr sec"
  shows "m k = (case map_option environ (map_of env_vars k) of
                  Some (Some v) \<Rightarrow> Some (VStr v)
                | _ \<Rightarrow> (case sec k of
                         Some v \<Rightarrow> Some (VStr v)
                       | None \<Rightarrow> map_option VStr (default_raw k)))"
proof -
  from assms have m: "m = set_defaults (overlay_env (env_config environ) (\<lambda>key. map_option VStr (sec key)))"
    by (simp add: merged_config_def)
  show ?thesis
    unfolding m set_defaults_apply overlay_env_apply[OF distinct_env_config] map_of_env_config
    by (simp split: option.splits)
qed

lemma convert_numeric_Inr:
  assumes "convert_numeric key c = Inr c'"
  shows "(c key = None \<and> c' = c) \<or> (\<exists>v i. c key = Some v \<and> py_int_value v = Inr i \<and> c' = c(key \<mapsto> VInt i))"
  using assms by (auto simp: convert_numeric_def split: option.splits sum.splits)

lemma convert_numeric_other:
  "convert_numeric key c = Inr c' \<Longrightarrow> k \<noteq> key \<Longrightarrow> c' k = c k"
  by (auto simp: convert_numeric_def split: option.splits sum.splits)

lemma convert_numeric_key:
  "convert_numeric key c = Inr c' \<Longrightarrow>
   (case c key of None \<Rightarrow> c' key = None
    | Some v \<Rightarrow> (\<exists>i. py_int_value v = Inr i \<and> c' key = Some (VInt i)))"
  by (auto simp: convert_numeric_def split: option.splits sum.splits)

lemma load_config_Inr:
  assumes "load_config pe pr environ f = Inr cfg"
  obtains m c1 c2 where "merged_config pe pr environ f = Inr m"
    and "convert_numeric ''max_poll_records'' m = Inr c1"
    and "convert_numeric ''session_timeout_ms'' c1 = Inr c2"
    and "convert_numeric ''heartbeat_interval_ms'' c2 = Inr cfg"
  using assms by (auto simp: load_config_def split: sum.splits)

lemma load_config_other:
  assumes "load_config pe pr environ f = Inr cfg" and "merged_config pe pr environ f = Inr m"
    and "k \<notin> set numeric_params"
  shows "cfg k = m k"
proof -
  from assms(1) obtain m' c1 c2 where
    m': "merged_config pe pr environ f = Inr m'"
    and 1: "convert_numeric ''max_poll_records'' m' = Inr c1"
    and 2: "convert_numeric ''session_timeout_ms'' c1 = Inr c2"
    and 3: "convert_numeric ''heartbeat_interval_ms'' c2 = Inr cfg"
    by (rule load_config_Inr)
  from m' assms(2) have "m' = m" by simp
  with assms(3) convert_numeric_other[OF 1, of k] convert_numeric_other[OF 2, of k]
    convert_numeric_other[OF 3, of k]
  show ?thesis by (simp add: numeric_params_def)
qed

lemma load_config_numeric:
  assumes "load_config pe pr environ f = Inr cfg" and "merged_config pe pr environ f = Inr m"
    and "k \<in> set numeric_params"
  shows "case m k of None \<Rightarrow> cfg k = None
         | Some v \<Rightarrow> (\<exists>i. py_int_value v = Inr i \<and> cfg k = Some (VInt i))"
proof -
  from assms(1) obtain m' c1 c2 where
    m': "merged_config pe pr environ f = Inr m'"
    and 1: "convert_numeric ''max_poll_records'' m' = Inr c1"
    and 2: "convert_numeric ''session_timeout_ms'' c1 = Inr c2"
    and 3: "convert_numeric ''heartbeat_interval_ms'' c2 = Inr cfg"
    by (rule load_config_Inr)
  from m' assms(2) have mm: "m' = m" by simp
  from assms(3) consider "k = ''max_poll_records''" | "k = ''session_timeout_ms''"
    | "k = ''heartbeat_interval_ms''" by (auto simp: numeric_params_def)
  then show ?thesis
  proof cases
    case 1
    have "cfg k = c1 k"
      using convert_numeric_other[OF 2, of k] convert_numeric_other[OF 3, of k] 1 by simp
    with convert_numeric_key[OF \<open>convert_numeric ''max_poll_records'' m' = Inr c1\<close>] 1 mm
    show ?thesis by (simp split: option.splits)
  next
    case 2
    have a: "cfg k = c2 k" using convert_numeric_other[OF 3, of k] 2 by simp
    have b: "c1 k = m k"
      using convert_numeric_other[OF \<open>convert_numeric ''max_poll_records'' m' = Inr c1\<close>, of k] 2 mm
      by simp
    from convert_numeric_key[OF \<open>convert_numeric ''session_timeout_ms'' c1 = Inr c2\<close>] a b 2
    show ?thesis by (simp split: option.splits)
  next
    case 3
    have b: "c2 k = m k"
      using convert_numeric_other[OF \<open>convert_numeric ''max_poll_records'' m' = Inr c1\<close>, of k]
        convert_numeric_other[OF \<open>convert_numeric ''session_timeout_ms'' c1 = Inr c2\<close>, of k] 3 mm
      by simp
    from convert_numeric_key[OF \<open>convert_numeric ''heartbeat_interval_ms'' c2 = Inr cfg\<close>] b 3
    show ?thesis by (simp split: option.splits)
  qed
qed

lemma map_of_env_vars_key:
  "(key, var) \<in> set env_vars \<Longrightarrow> map_of env_vars key = Some var"
  by (rule map_of_is_SomeI) (simp_all add: env_vars_def)

lemma default_500: "py_int ''500'' = Some 500"
  by (simp add: py_int_def py_strip_def py_isspace_def is_digit_def dec_value_def digit_val_def)
lemma default_30000: "py_int ''30000'' = Some 30000"
  by (simp add: py_int_def py_strip_def py_isspace_def is_digit_def dec_value_def digit_val_def)
lemma default_3000: "py_int ''3000'' = Some 3000"
  by (simp add: py_int_def py_strip_def py_isspace_def is_digit_def dec_value_def digit_val_def)

lemma default_non_numeric:
  "key \<notin> set numeric_params \<Longrightarrow> map_option VStr (default_raw key) = documented_default key"
  by (simp add: default_raw_def documented_default_def numeric_params_def)

lemma default_numeric:
  "key \<in> set numeric_params \<Longrightarrow>
   \<exists>raw i. default_raw key = Some raw \<and> py_int raw = Some i \<and> documented_default key = Some (VInt i)"
  by (auto simp: default_raw_def documented_default_def numeric_params_def default_500 default_30000
      default_3000)

lemma merged_config_Inr:
  assumes "merged_config pe pr environ f = Inr m"
  obtains sec where "file_section pe pr f = Inr sec"
  using assms by (auto simp: merged_config_def split: sum.splits)

lemma py_int_value_VStr:
  "py_int_value (VStr s) = Inr i \<longleftrightarrow> py_int s = Some i"
  by (simp split: option.splits)

lemma sample_load_config:
  "\<exists>cfg. load_config every_path_exists sample_parser sample_env (Some ''kafka.ini'') = Inr cfg"
  by (simp add: load_config_def merged_config_def file_section_def every_path_exists_def
      sample_parser_def sample_ini_def sample_env_def env_config_def env_vars_def
      set_defaults_def setdefault_def convert_numeric_def py_int_def py_strip_def
      py_isspace_def is_digit_def)

lemma sample_file_section:
  "file_section every_path_exists sample_parser (Some ''kafka.ini'') = Inr (the (sample_ini ''kafka''))"
  by (simp add: file_section_def every_path_exists_def sample_parser_def sample_ini_def)

text \<open>
  C1. For every configuration file and every environment for which \<^verbatim>\<open>_load_config\<close>
  returns, the entry of each recognised key is the value of its environment variable
  when that is set, else the value of the key in the \<^verbatim>\<open>kafka\<close> section of the file when
  it is there, else the documented default; the three numeric keys hold the chosen
  string read as an integer. A required key that neither source has stays absent.
\<close>

theorem load_config_precedence:
  assumes "load_config pe pr environ f = Inr cfg"
    and "file_section pe pr f = Inr sec"
    and "(key, var) \<in> set env_vars"
  shows "(case environ var of
            Some v \<Rightarrow> resolved_as key v (cfg key)
          | None \<Rightarrow> (case sec key of
                       Some v \<Rightarrow> resolved_as key v (cfg key)
                     | None \<Rightarrow> cfg key = documented_default key))
         \<and> (key \<in> set required_params \<and> environ var = None \<and> sec key = None
              \<longrightarrow> cfg key = None)"
proof -
  from assms(2) obtain m where m: "merged_config pe pr environ f = Inr m"
    by (simp add: merged_config_def)
  note kv = map_of_env_vars_key[OF assms(3)]
  note mk = merged_config_apply[OF m assms(2), of key, unfolded kv]
  have main: "case environ var of
            Some v \<Rightarrow> resolved_as key v (cfg key)
          | None \<Rightarrow> (case sec key of
                       Some v \<Rightarrow> resolved_as key v (cfg key)
                     | None \<Rightarrow> cfg key = documented_default key)"
  proof (cases "key \<in> set numeric_params")
    case False
    have "cfg key = m key" by (rule load_config_other[OF assms(1) m False])
    with mk default_non_numeric[OF False] False show ?thesis
      by (simp add: resolved_as_def split: option.splits)
  next
    case True
    from default_numeric[OF True] obtain raw i where d: "default_raw key = Some raw"
      "py_int raw = Some i" "documented_default key = Some (VInt i)" by blast
    from load_config_numeric[OF assms(1) m True] mk True d show ?thesis
      by (auto simp: resolved_as_def split: option.splits)
  qed
  have "documented_default key = None" if "key \<in> set required_params"
    using that by (auto simp: required_params_def documented_default_def)
  with main show ?thesis by (auto split: option.splits)
qed

theorem load_config_precedence_witness:
  "projr (load_config every_path_exists sample_parser sample_env (Some ''kafka.ini''))
     ''bootstrap_servers'' = Some (VStr ''broker1:9092,broker2:9092'')
   \<and> projr (load_config every_path_exists sample_parser sample_env (Some ''kafka.ini''))
     ''session_timeout_ms'' = Some (VInt 45000)
   \<and> projr (load_config every_path_exists sample_parser sample_env (Some ''kafka.ini''))
     ''max_poll_records'' = Some (VInt 500)"
proof -
  from sample_load_config obtain cfg where
    cfg: "load_config every_path_exists sample_parser sample_env (Some ''kafka.ini'') = Inr cfg"
    by blast
  have 1: "(''bootstrap_servers'', ''KAFKA_BOOTSTRAP_SERVERS'') \<in> set env_vars"
    and 2: "(''session_timeout_ms'', ''KAFKA_SESSION_TIMEOUT_MS'') \<in> set env_vars"
    and 3: "(''max_poll_records'', ''KAFKA_MAX_POLL_RECORDS'') \<in> set env_vars"
    by (simp_all add: env_vars_def)
  have "cfg ''bootstrap_servers'' = Some (VStr ''broker1:9092,broker2:9092'')"
    using load_config_precedence[OF cfg sample_file_section 1]
    by (simp add: sample_env_def resolved_as_def numeric_params_def)
  moreover have "cfg ''session_timeout_ms'' = Some (VInt 45000)"
    using load_config_precedence[OF cfg sample_file_section 2]
    by (simp add: sample_env_def sample_ini_def resolved_as_def numeric_params_def
        py_int_def py_strip_def py_isspace_def is_digit_def dec_value_def digit_val_def)
  moreover have "cfg ''max_poll_records'' = Some (VInt 500)"
    using load_config_precedence[OF cfg sample_file_section 3]
    by (simp add: sample_env_def sample_ini_def documented_default_def)
  ultimately show ?thesis by (simp add: cfg)
qed

section \<open>Missing required parameters\<close>

lemma merged_default_keys:
  assumes "merged_config pe pr environ f = Inr m" and "default_raw k = Some d"
  shows "m k \<noteq> None"
proof -
  from assms(1) obtain sec where "file_section pe pr f = Inr sec" by (rule merged_config_Inr)
  from merged_config_apply[OF assms(1) this, of k] assms(2) show ?thesis
    by (simp split: option.splits)
qed

lemma merged_config_VStr:
  assumes "merged_config pe pr environ f = Inr m"
  shows "m k \<noteq> Some (VInt i)"
proof -
  from assms(1) obtain sec where "file_section pe pr f = Inr sec" by (rule merged_config_Inr)
  from merged_config_apply[OF assms(1) this, of k] show ?thesis
    by (auto split: option.splits)
qed

lemma load_config_required_string:
  assumes "load_config pe pr environ f = Inr cfg" and "p \<in> set required_params"
  shows "cfg p \<noteq> Some (VInt i)"
proof -
  from assms(1) obtain m where m: "merged_config pe pr environ f = Inr m"
    by (auto elim: load_config_Inr)
  from assms(2) have "p \<notin> set numeric_params"
    by (auto simp: required_params_def numeric_params_def)
  from load_config_other[OF assms(1) m this] merged_config_VStr[OF m] show ?thesis by simp
qed

lemma truthy_string_iff:
  assumes "\<And>i. v \<noteq> Some (VInt i)"
  shows "truthy v \<longleftrightarrow> (case v of Some (VStr s) \<Rightarrow> s \<noteq> [] | _ \<Rightarrow> False)"
    and "\<not> truthy v \<longleftrightarrow> v = None \<or> v = Some (VStr [])"
  using assms by (cases v rule: truthy.cases; simp)+

lemma validate_config_MissingRequired_iff:
  "validate_config pe cfg = Inl (MissingRequired fs) \<longleftrightarrow>
   fs \<noteq> [] \<and> fs = missing_params cfg"
  by (auto simp: validate_config_def split: option.splits)

lemma missing_params_Nil_iff:
  "missing_params cfg = [] \<longleftrightarrow> (\<forall>p \<in> set required_params. truthy (cfg p))"
  by (auto simp: missing_params_def filter_empty_conv)

text \<open>
  C2. For every resolved configuration, validation fails with the missing-parameters
  error exactly when some required parameter is absent or empty, and the error then
  lists all of them (in the order of the source's list), not only the first; validation
  gets past this check only when all four are present and non-empty.
\<close>

theorem validate_config_missing_required:
  assumes "load_config pe pr environ f = Inr cfg"
  shows "(validate_config pe' cfg = Inl (MissingRequired fs) \<longleftrightarrow>
            fs \<noteq> [] \<and> fs = filter (absent_or_empty cfg) required_params)
         \<and> ((\<forall>fs'. validate_config pe' cfg \<noteq> Inl (MissingRequired fs')) \<longleftrightarrow>
            (\<forall>p \<in> set required_params. present_nonempty cfg p))"
proof -
  have str: "\<And>p i. p \<in> set required_params \<Longrightarrow> cfg p \<noteq> Some (VInt i)"
    by (rule load_config_required_string[OF assms])
  have mp: "missing_params cfg = filter (absent_or_empty cfg) required_params"
    unfolding missing_params_def
    by (rule filter_cong[OF refl]) (simp add: absent_or_empty_def truthy_string_iff(2)[OF str])
  have "(\<forall>p \<in> set required_params. truthy (cfg p)) \<longleftrightarrow>
        (\<forall>p \<in> set required_params. present_nonempty cfg p)"
    by (rule ball_cong[OF refl]) (simp add: present_nonempty_def truthy_string_iff(1)[OF str])
  then have "(\<forall>fs'. validate_config pe' cfg \<noteq> Inl (MissingRequired fs')) \<longleftrightarrow>
        (\<forall>p \<in> set required_params. present_nonempty cfg p)"
    by (auto simp: validate_config_MissingRequired_iff missing_params_Nil_iff[symmetric])
  then show ?thesis
    by (simp add: validate_config_MissingRequired_iff mp)
qed

lemma sample_load_config_no_file:
  "\<exists>cfg. load_config every_path_exists sample_parser sample_env None = Inr cfg"
  by (simp add: load_config_def merged_config_def file_section_def
      sample_env_def env_config_def env_vars_def
      set_defaults_def setdefault_def convert_numeric_def py_int_def py_strip_def
      py_isspace_def is_digit_def)

lemma sample_no_file_fields:
  "map (projr (load_config every_path_exists sample_parser sample_env None)) required_params
   = [Some (VStr ''broker1:9092,broker2:9092''), None, Some (VStr ''/etc/security/kafka.keytab''),
      Some (VStr ''user@REALM'')]"
  by (simp add: load_config_def merged_config_def file_section_def required_params_def
      sample_env_def env_config_def env_vars_def
      set_defaults_def setdefault_def convert_numeric_def py_int_def py_strip_def
      py_isspace_def is_digit_def)

theorem validate_config_missing_required_witness:
  "validate_config every_path_exists
     (projr (load_config every_path_exists sample_parser sample_env None))
   = Inl (MissingRequired [''topic''])"
proof -
  from sample_load_config_no_file obtain cfg where
    cfg: "load_config every_path_exists sample_parser sample_env None = Inr cfg" by blast
  from sample_no_file_fields cfg
  have "filter (absent_or_empty cfg) required_params = [''topic'']"
    by (simp add: required_params_def absent_or_empty_def)
  with validate_config_missing_required[OF cfg, of every_path_exists "[''topic'']"] cfg
  show ?thesis by simp
qed

section \<open>An empty broker list\<close>

lemma validate_config_never_EmptyBrokerList:
  "validate_config pe cfg \<noteq> Inl EmptyBrokerList"
proof (cases "missing_params cfg = []")
  case True
  then have "truthy (cfg ''bootstrap_servers'')"
    by (simp add: missing_params_Nil_iff required_params_def)
  with True show ?thesis
    by (auto simp: validate_config_def split: option.splits)
next
  case False
  then show ?thesis by (simp add: validate_config_def)
qed

lemma present_nonempty_truthy: "present_nonempty cfg p \<Longrightarrow> truthy (cfg p)"
  by (auto simp: present_nonempty_def split: option.splits cfg_value.splits)

lemma empty_brokers_resolved:
  "\<not> isl (load_config every_path_exists sample_parser env_empty_brokers None)"
  "map (projr (load_config every_path_exists sample_parser env_empty_brokers None)) required_params
   = [Some (VStr []), Some (VStr ''events''), Some (VStr ''/etc/security/kafka.keytab''),
      Some (VStr ''user@REALM'')]"
  by (simp_all add: load_config_def merged_config_def file_section_def required_params_def
      env_empty_brokers_def env_config_def env_vars_def
      set_defaults_def setdefault_def convert_numeric_def py_int_def py_strip_def
      py_isspace_def is_digit_def)

text \<open>
  C3, as the code has it. A configuration whose \<^verbatim>\<open>bootstrap_servers\<close> is the empty string,
  with the other three required parameters present and non-empty, fails validation with
  the missing-parameters error that lists \<^verbatim>\<open>bootstrap_servers\<close>: the empty string is
  falsy, so the first check of \<^verbatim>\<open>_validate_config\<close> already rejects it.
\<close>

theorem validate_config_empty_brokers:
  assumes "cfg ''bootstrap_servers'' = Some (VStr [])"
    and "present_nonempty cfg ''topic''"
    and "present_nonempty cfg ''keytab_path''"
    and "present_nonempty cfg ''principal''"
  shows "validate_config pe cfg = Inl (MissingRequired [''bootstrap_servers''])"
  using assms(1) assms(2-4)[THEN present_nonempty_truthy]
  by (simp add: validate_config_def missing_params_def required_params_def)

theorem validate_config_empty_brokers_witness:
  "validate_config every_path_exists
     (projr (load_config every_path_exists sample_parser env_empty_brokers None))
   = Inl (MissingRequired [''bootstrap_servers''])"
  using empty_brokers_resolved(2)
  by (intro validate_config_empty_brokers)
     (simp_all add: required_params_def present_nonempty_def)

text \<open>
  The claim C3 as it was stated fails: with \<^verbatim>\<open>KAFKA_BOOTSTRAP_SERVERS\<close> set to the empty
  string and the other required variables set, resolution succeeds and validation
  reports the missing-parameters error, not the empty-broker-list error.
\<close>

theorem validate_config_empty_brokers_counterexample:
  "\<not> isl (load_config every_path_exists sample_parser env_empty_brokers None)
   \<and> projr (load_config every_path_exists sample_parser env_empty_brokers None)
        ''bootstrap_servers'' = Some (VStr [])
   \<and> validate_config every_path_exists
        (projr (load_config every_path_exists sample_parser env_empty_brokers None))
      \<noteq> Inl EmptyBrokerList"
  using empty_brokers_resolved
  by (simp add: required_params_def validate_config_def missing_params_def)

section \<open>Numeric settings that are not numbers\<close>

lemma convert_numeric_Inl:
  "convert_numeric key c = Inl e \<Longrightarrow> \<exists>s. e = ValueError s"
  by (auto simp: convert_numeric_def split: option.splits sum.splits cfg_value.splits
      elim: py_int_value.elims)

lemma load_config_Inl:
  assumes "merged_config pe pr environ f = Inr m" and "load_config pe pr environ f = Inl e"
  shows "\<exists>s. e = ValueError s"
  using assms by (auto simp: load_config_def split: sum.splits dest: convert_numeric_Inl)

lemma init_load_config_error:
  assumes "DOTENV_AVAILABLE pf"
    and "load_config (path_exists pf) (parser_read pf) (load_dotenv pf environ0) f = Inl e"
  shows "fst (init pf f environ0) = Some e"
  using assms by (simp add: init_def Let_def)

text \<open>
  C4, as the code has it. When one of the three numeric settings resolves to a string
  that \<^verbatim>\<open>int()\<close> rejects, \<^verbatim>\<open>_load_config\<close> fails with the \<^verbatim>\<open>ValueError\<close> of \<^verbatim>\<open>int()\<close>
  itself, which is not a \<^verbatim>\<open>KafkaKerberosError\<close>, and \<^verbatim>\<open>__init__\<close> passes it on to its
  caller as it is; when \<^verbatim>\<open>_load_config\<close> returns, the three settings are integers.
\<close>

theorem load_config_invalid_numeric:
  assumes "merged_config (path_exists pf) (parser_read pf) (load_dotenv pf environ0) f = Inr m"
  shows "(\<forall>key \<in> set numeric_params. \<forall>s. m key = Some (VStr s) \<and> py_int s = None \<longrightarrow>
            (\<exists>s'. load_config (path_exists pf) (parser_read pf) (load_dotenv pf environ0) f
                    = Inl (ValueError s')
                  \<and> \<not> is_KafkaKerberosError (ValueError s')
                  \<and> (DOTENV_AVAILABLE pf \<longrightarrow> fst (init pf f environ0) = Some (ValueError s'))))
         \<and> (\<forall>cfg. load_config (path_exists pf) (parser_read pf) (load_dotenv pf environ0) f
                  = Inr cfg \<longrightarrow>
              (\<forall>key \<in> set numeric_params. \<exists>i. cfg key = Some (VInt i)))"
proof (intro conjI ballI allI impI)
  fix key s
  assume key: "key \<in> set numeric_params" and bad: "m key = Some (VStr s) \<and> py_int s = None"
  have "\<exists>s'. load_config (path_exists pf) (parser_read pf) (load_dotenv pf environ0) f
             = Inl (ValueError s')"
  proof (cases "load_config (path_exists pf) (parser_read pf) (load_dotenv pf environ0) f")
    case (Inl e)
    with load_config_Inl[OF assms Inl] show ?thesis by auto
  next
    case (Inr cfg)
    from load_config_numeric[OF Inr assms key] bad show ?thesis by simp
  qed
  then obtain s' where
    s': "load_config (path_exists pf) (parser_read pf) (load_dotenv pf environ0) f
         = Inl (ValueError s')"
    by blast
  then have "DOTENV_AVAILABLE pf \<longrightarrow> fst (init pf f environ0) = Some (ValueError s')"
    by (simp add: init_load_config_error)
  with s' show "\<exists>s'. load_config (path_exists pf) (parser_read pf) (load_dotenv pf environ0) f
                    = Inl (ValueError s')
                  \<and> \<not> is_KafkaKerberosError (ValueError s')
                  \<and> (DOTENV_AVAILABLE pf \<longrightarrow> fst (init pf f environ0) = Some (ValueError s'))"
    by simp
next
  fix cfg key
  assume cfg: "load_config (path_exists pf) (parser_read pf) (load_dotenv pf environ0) f = Inr cfg"
    and key: "key \<in> set numeric_params"
  from key have "\<exists>d. default_raw key = Some d"
    by (auto simp: numeric_params_def default_raw_def)
  with merged_default_keys[OF assms] have "m key \<noteq> None" by blast
  with load_config_numeric[OF cfg assms key] show "\<exists>i. cfg key = Some (VInt i)"
    by (auto split: option.splits)
qed

lemma sample_platform_fields:
  "DOTENV_AVAILABLE sample_platform" "path_exists sample_platform = every_path_exists"
  "parser_read sample_platform = sample_parser" "load_dotenv sample_platform e = e"
  by (simp_all add: sample_platform_def)

lemma bad_numeric_merged:
  "merged_config every_path_exists sample_parser env_bad_numeric None
   = Inr (projr (merged_config every_path_exists sample_parser env_bad_numeric None))"
  "projr (merged_config every_path_exists sample_parser env_bad_numeric None) ''max_poll_records''
   = Some (VStr ''abc'')"
  by (simp_all add: merged_config_def file_section_def env_bad_numeric_def env_config_def
      env_vars_def set_defaults_def setdefault_def)

lemma py_int_abc: "py_int ''abc'' = None"
  by (simp add: py_int_def py_strip_def py_isspace_def is_digit_def)

theorem load_config_invalid_numeric_witness:
  "isl (load_config every_path_exists sample_parser env_bad_numeric None)
   \<and> \<not> is_KafkaKerberosError
        (projl (load_config every_path_exists sample_parser env_bad_numeric None))
   \<and> fst (init sample_platform None env_bad_numeric)
     = Some (projl (load_config every_path_exists sample_parser env_bad_numeric None))"
proof -
  have key: "''max_poll_records'' \<in> set numeric_params" by (simp add: numeric_params_def)
  note inst = load_config_invalid_numeric[of sample_platform env_bad_numeric None
      "projr (merged_config every_path_exists sample_parser env_bad_numeric None)",
      unfolded sample_platform_fields(2-4), OF bad_numeric_merged(1)]
  from inst key bad_numeric_merged(2) py_int_abc sample_platform_fields(1)
  obtain s' where "load_config every_path_exists sample_parser env_bad_numeric None
      = Inl (ValueError s')"
    and "fst (init sample_platform None env_bad_numeric) = Some (ValueError s')"
    by blast
  then show ?thesis by simp
qed

text \<open>
  The claim C4 as it was stated fails: with \<^verbatim>\<open>KAFKA_MAX_POLL_RECORDS=abc\<close> the error that
  leaves \<^verbatim>\<open>_load_config\<close>, and then the constructor, is the bare \<^verbatim>\<open>ValueError\<close>, not the
  utility's own error kind.
\<close>

theorem load_config_invalid_numeric_counterexample:
  "load_config every_path_exists sample_parser env_bad_numeric None = Inl (ValueError ''abc'')
   \<and> fst (init sample_platform None env_bad_numeric) = Some (ValueError ''abc'')
   \<and> \<not> is_KafkaKerberosError (ValueError ''abc'')"
proof -
  have l: "load_config every_path_exists sample_parser env_bad_numeric None
           = Inl (ValueError ''abc'')"
    by (simp add: load_config_def merged_config_def file_section_def env_bad_numeric_def
      env_config_def env_vars_def set_defaults_def setdefault_def convert_numeric_def
      py_int_abc)
  from init_load_config_error[of sample_platform env_bad_numeric None "ValueError ''abc''"] l
  have "fst (init sample_platform None env_bad_numeric) = Some (ValueError ''abc'')"
    by (simp add: sample_platform_fields)
  with l show ?thesis by simp
qed

section \<open>The handle caches\<close>

lemma get_producer_hit:
  assumes "topic_or_default topic (config s) = Inr t" and "map_of (producers s) t = Some p"
  shows "get_producer KP topic s = (Inr p, s)"
  using assms by (simp add: get_producer_def)

lemma get_consumer_hit:
  assumes "topic_or_default topic (config s) = Inr t" and "map_of (consumers s) t = Some c"
  shows "get_consumer KC topic s = (Inr c, s)"
  using assms by (simp add: get_consumer_def)

lemma get_producer_Inr:
  assumes "get_producer KP topic s = (Inr p, s1)"
  shows "\<exists>t. topic_or_default topic (config s) = Inr t
           \<and> config s1 = config s
           \<and> map_of (producers s1) t = Some p
           \<and> constructed s1 = constructed s
               @ (if map_of (producers s) t = None then [(Producer, t)] else [])
           \<and> (distinct (map fst (producers s)) \<longrightarrow> distinct (map fst (producers s1)))"
proof (cases "topic_or_default topic (config s)")
  case (Inl e)
  with assms show ?thesis by (simp add: get_producer_def)
next
  case (Inr t)
  show ?thesis
  proof (cases "map_of (producers s) t")
    case (Some q)
    with Inr assms have "p = q" "s1 = s" by (simp_all add: get_producer_def)
    with Some Inr show ?thesis by simp
  next
    case None
    with Inr assms obtain kw where "get_producer_config (config s) = Inr kw"
      and "KP kw = Inr p"
      and s1: "s1 = s\<lparr>producers := producers s @ [(t, p)],
                      log_lines := log_lines s @ [InfoProducerCreated t],
                      constructed := constructed s @ [(Producer, t)]\<rparr>"
      by (auto simp: get_producer_def split: sum.splits)
    have "map_of (producers s1) t = Some p"
      using None by (simp add: s1 map_add_def)
    moreover have "distinct (map fst (producers s1))" if "distinct (map fst (producers s))"
      using None that unfolding s1 by (simp add: map_of_eq_None_iff)
    ultimately show ?thesis
      using Inr None by (simp add: s1)
  qed
qed

lemma get_consumer_Inr:
  assumes "get_consumer KC topic s = (Inr p, s1)"
  shows "\<exists>t. topic_or_default topic (config s) = Inr t
           \<and> config s1 = config s
           \<and> map_of (consumers s1) t = Some p
           \<and> constructed s1 = constructed s
               @ (if map_of (consumers s) t = None then [(Consumer, t)] else [])
           \<and> (distinct (map fst (consumers s)) \<longrightarrow> distinct (map fst (consumers s1)))"
proof (cases "topic_or_default topic (config s)")
  case (Inl e)
  with assms show ?thesis by (simp add: get_consumer_def)
next
  case (Inr t)
  show ?thesis
  proof (cases "map_of (consumers s) t")
    case (Some q)
    with Inr assms have "p = q" "s1 = s" by (simp_all add: get_consumer_def)
    with Some Inr show ?thesis by simp
  next
    case None
    with Inr assms obtain kw where "get_consumer_config (config s) = Inr kw"
      and "KC t kw = Inr p"
      and s1: "s1 = s\<lparr>consumers := consumers s @ [(t, p)],
                      log_lines := log_lines s @ [InfoConsumerCreated t],
                      constructed := constructed s @ [(Consumer, t)]\<rparr>"
      by (auto simp: get_consumer_def split: sum.splits)
    have "map_of (consumers s1) t = Some p"
      using None by (simp add: s1 map_add_def)
    moreover have "distinct (map fst (consumers s1))" if "distinct (map fst (consumers s))"
      using None that unfolding s1 by (simp add: map_of_eq_None_iff)
    ultimately show ?thesis
      using Inr None by (simp add: s1)
  qed
qed

text \<open>
  C6. When \<^verbatim>\<open>get_producer\<close> has returned a client for a topic, the next call for the
  same topic returns the same client and changes nothing, whatever the constructor
  would do: the constructor is not called again. The first call has called the
  constructor once if the topic was not in the cache and not at all otherwise. The
  cache never holds two clients for one topic. The same holds for \<^verbatim>\<open>get_consumer\<close>.
\<close>

theorem get_handle_cached:
  "(get_producer KP topic s = (Inr p, s1) \<longrightarrow>
      get_producer KP' topic s1 = (Inr p, s1)
      \<and> (\<exists>t. topic_or_default topic (config s) = Inr t
             \<and> map_of (producers s1) t = Some p
             \<and> constructed s1 = constructed s
                 @ (if map_of (producers s) t = None then [(Producer, t)] else []))
      \<and> (distinct (map fst (producers s)) \<longrightarrow> distinct (map fst (producers s1))))
   \<and> (get_consumer KC topic s = (Inr c, s2) \<longrightarrow>
      get_consumer KC' topic s2 = (Inr c, s2)
      \<and> (\<exists>t. topic_or_default topic (config s) = Inr t
             \<and> map_of (consumers s2) t = Some c
             \<and> constructed s2 = constructed s
                 @ (if map_of (consumers s) t = None then [(Consumer, t)] else []))
      \<and> (distinct (map fst (consumers s)) \<longrightarrow> distinct (map fst (consumers s2))))"
proof (intro conjI impI)
  assume a: "get_producer KP topic s = (Inr p, s1)"
  from get_producer_Inr[OF a] obtain t where t: "topic_or_default topic (config s) = Inr t"
    and c: "config s1 = config s" and m: "map_of (producers s1) t = Some p"
    and k: "constructed s1 = constructed s
              @ (if map_of (producers s) t = None then [(Producer, t)] else [])"
    and d: "distinct (map fst (producers s)) \<longrightarrow> distinct (map fst (producers s1))"
    by blast
  from t c m show "get_producer KP' topic s1 = (Inr p, s1)"
    by (simp add: get_producer_hit)
  from t m k show "\<exists>t. topic_or_default topic (config s) = Inr t
             \<and> map_of (producers s1) t = Some p
             \<and> constructed s1 = constructed s
                 @ (if map_of (producers s) t = None then [(Producer, t)] else [])"
    by blast
  assume "distinct (map fst (producers s))"
  with d show "distinct (map fst (producers s1))" by simp
next
  assume a: "get_consumer KC topic s = (Inr c, s2)"
  from get_consumer_Inr[OF a] obtain t where t: "topic_or_default topic (config s) = Inr t"
    and c: "config s2 = config s" and m: "map_of (consumers s2) t = Some c"
    and k: "constructed s2 = constructed s
              @ (if map_of (consumers s) t = None then [(Consumer, t)] else [])"
    and d: "distinct (map fst (consumers s)) \<longrightarrow> distinct (map fst (consumers s2))"
    by blast
  from t c m show "get_consumer KC' topic s2 = (Inr c, s2)"
    by (simp add: get_consumer_hit)
  from t m k show "\<exists>t. topic_or_default topic (config s) = Inr t
             \<and> map_of (consumers s2) t = Some c
             \<and> constructed s2 = constructed s
                 @ (if map_of (consumers s) t = None then [(Consumer, t)] else [])"
    by blast
  assume "distinct (map fst (consumers s))"
  with d show "distinct (map fst (consumers s2))" by simp
qed

lemma sample_topic: "topic_or_default None sample_config = Inr (VStr ''events'')"
  by (simp add: topic_or_default_def subscript_def sample_config_def)

lemma sample_producer_config: "\<exists>kw. get_producer_config sample_config = Inr kw"
  by (simp add: get_producer_config_def bootstrap_list_def subscript_def sample_config_def)

lemma sample_consumer_config: "\<exists>kw. get_consumer_config sample_config = Inr kw"
  by (simp add: get_consumer_config_def bootstrap_list_def subscript_def sample_config_def)

lemma sample_get_producer:
  "get_producer new_producer None sample_session
   = (Inr 1, sample_session\<lparr>producers := [(VStr ''events'', 1)],
                            log_lines := [InfoProducerCreated (VStr ''events'')],
                            constructed := [(Producer, VStr ''events'')]\<rparr>)"
  using sample_producer_config
  by (auto simp: get_producer_def sample_topic sample_session_def new_producer_def)

lemma sample_get_consumer:
  "get_consumer new_consumer None sample_session
   = (Inr 2, sample_session\<lparr>consumers := [(VStr ''events'', 2)],
                            log_lines := [InfoConsumerCreated (VStr ''events'')],
                            constructed := [(Consumer, VStr ''events'')]\<rparr>)"
  using sample_consumer_config
  by (auto simp: get_consumer_def sample_topic sample_session_def new_consumer_def)

theorem get_handle_cached_witness:
  "fst (get_producer new_producer None sample_session) = Inr 1
   \<and> get_producer other_producer None (snd (get_producer new_producer None sample_session))
       = get_producer new_producer None sample_session
   \<and> constructed (snd (get_producer new_producer None sample_session))
       = [(Producer, VStr ''events'')]
   \<and> fst (get_consumer new_consumer None sample_session) = Inr 2
   \<and> get_consumer other_consumer None (snd (get_consumer new_consumer None sample_session))
       = get_consumer new_consumer None sample_session"
  using get_handle_cached[of new_producer None sample_session 1
      "snd (get_producer new_producer None sample_session)" other_producer
      new_consumer 2 "snd (get_consumer new_consumer None sample_session)" other_consumer]
  by (simp add: sample_get_producer sample_get_consumer)

section \<open>The polling loop\<close>

lemma cap_reached_mono:
  "cap_reached mm c \<Longrightarrow> c \<le> c' \<Longrightarrow> cap_reached mm c'"
  by (auto simp: cap_reached_def split: option.splits)

lemma message_count_receive [simp]:
  "message_count (receive h r st) = message_count st + 1"
  by (simp add: receive_def Let_def split: option.splits prod.splits)

lemma messages_receive [simp]:
  "messages (receive h r st) = messages st @ [rec_value r]"
  by (simp add: receive_def Let_def split: option.splits prod.splits)

lemma receive_all_Nil [simp]: "receive_all h [] st = st"
  by (simp add: receive_all_def)

lemma receive_all_Cons [simp]:
  "receive_all h (r # recs) st = receive_all h recs (receive h r st)"
  by (simp add: receive_all_def)

lemma receive_all_append:
  "receive_all h (xs @ ys) st = receive_all h ys (receive_all h xs st)"
  by (simp add: receive_all_def)

lemma message_count_receive_all [simp]:
  "message_count (receive_all h recs st) = message_count st + int (length recs)"
  by (induction recs arbitrary: st) simp_all

lemma messages_receive_all [simp]:
  "messages (receive_all h recs st) = messages st @ map rec_value recs"
  by (induction recs arbitrary: st) simp_all

lemma process_records_full:
  assumes "recs = [] \<or> \<not> cap_reached mm (message_count st + int (length recs) - 1)"
  shows "process_records mm h recs st = receive_all h recs st"
  using assms
proof (induction recs arbitrary: st)
  case Nil
  then show ?case by simp
next
  case (Cons r recs)
  from Cons.prems have nc: "\<not> cap_reached mm (message_count st + int (length recs))" by simp
  show ?case
  proof (cases recs)
    case Nil
    then show ?thesis by (simp add: Let_def)
  next
    case (Cons r' recs')
    with nc have "\<not> cap_reached mm (message_count st + 1)"
      by (auto dest: cap_reached_mono[where c' = "message_count st + int (length recs)"])
    moreover have "process_records mm h recs (receive h r st) = receive_all h recs (receive h r st)"
      using nc by (intro Cons.IH) (simp add: add.commute add.left_commute)
    ultimately show ?thesis by (simp add: Let_def)
  qed
qed

lemma process_records_take:
  "\<exists>n. process_records mm h recs st = receive_all h (take n recs) st"
proof (induction recs arbitrary: st)
  case Nil
  then show ?case by simp
next
  case (Cons r recs)
  show ?case
  proof (cases "cap_reached mm (message_count (receive h r st))")
    case True
    then have "process_records mm h (r # recs) st = receive_all h (take 1 (r # recs)) st"
      by (simp add: Let_def)
    then show ?thesis by blast
  next
    case False
    from Cons.IH[of "receive h r st"] obtain n where
      "process_records mm h recs (receive h r st) = receive_all h (take n recs) (receive h r st)"
      by blast
    with False have "process_records mm h (r # recs) st = receive_all h (take (Suc n) (r # recs)) st"
      by (simp add: Let_def)
    then show ?thesis by blast
  qed
qed

lemma batch_records_Nil [simp]: "batch_records [] = []"
  by (simp add: batch_records_def)

lemma batch_records_Cons [simp]:
  "batch_records ((tp, recs) # rest) = recs @ batch_records rest"
  by (simp add: batch_records_def)

lemma process_batch_full:
  assumes "batch_records b = [] \<or> \<not> cap_reached mm (message_count st + int (length (batch_records b)) - 1)"
  shows "process_batch mm h b st = receive_all h (batch_records b) st"
  using assms
proof (induction b arbitrary: st)
  case Nil
  then show ?case by simp
next
  case (Cons x b)
  obtain tp recs where x: "x = (tp, recs)" by (cases x)
  have head: "process_records mm h recs st = receive_all h recs st"
  proof (cases "recs = []")
    case True
    then show ?thesis by simp
  next
    case False
    with Cons.prems x
    have "\<not> cap_reached mm (message_count st + int (length recs) + int (length (batch_records b)) - 1)"
      by (simp add: add.assoc)
    then have "\<not> cap_reached mm (message_count st + int (length recs) - 1)"
      using cap_reached_mono[of mm "message_count st + int (length recs) - 1"
          "message_count st + int (length recs) + int (length (batch_records b)) - 1"]
      by auto
    then show ?thesis by (intro process_records_full) simp
  qed
  have "process_batch mm h b (receive_all h recs st)
        = receive_all h (batch_records b) (receive_all h recs st)"
  proof (cases "batch_records b = []")
    case True
    then show ?thesis by (intro Cons.IH) simp
  next
    case False
    with Cons.prems x show ?thesis
      by (intro Cons.IH) (simp add: add.assoc)
  qed
  with head x show ?case by (simp add: receive_all_append)
qed

lemma process_batch_consumed:
  "\<exists>recs. process_batch mm h b st = receive_all h recs st"
proof (induction b arbitrary: st)
  case Nil
  have "process_batch mm h [] st = receive_all h [] st" by simp
  then show ?case by blast
next
  case (Cons x b)
  obtain tp recs where x: "x = (tp, recs)" by (cases x)
  from process_records_take[of mm h recs st] obtain n where
    1: "process_records mm h recs st = receive_all h (take n recs) st" by blast
  from Cons.IH[of "receive_all h (take n recs) st"] obtain recs' where
    2: "process_batch mm h b (receive_all h (take n recs) st)
        = receive_all h recs' (receive_all h (take n recs) st)" by blast
  from 1 2 x have "process_batch mm h (x # b) st = receive_all h (take n recs @ recs') st"
    by (simp add: receive_all_append)
  then show ?case by blast
qed

lemma polled_records_0 [simp]: "polled_records poll i 0 = []"
  by (simp add: polled_records_def)

lemma polled_records_Suc_front:
  "polled_records poll i (Suc k) = records_at poll i @ polled_records poll (Suc i) k"
  by (simp add: polled_records_def upt_conv_Cons del: upt_Suc)

lemma polled_records_Suc_back:
  "polled_records poll i (Suc k) = polled_records poll i k @ records_at poll (i + k)"
  by (simp add: polled_records_def)

lemma consume_loop_cap:
  "cap_reached mm (message_count st) \<Longrightarrow> consume_loop poll mm h i st = Some (None, st, i)"
  by (subst consume_loop.simps) simp

lemma consume_loop_error:
  "\<not> cap_reached mm (message_count st) \<Longrightarrow> poll i = Inl e \<Longrightarrow>
   consume_loop poll mm h i st = Some (Some e, st, Suc i)"
  by (subst consume_loop.simps) simp

lemma consume_loop_empty:
  "\<not> cap_reached mm (message_count st) \<Longrightarrow> poll i = Inr [] \<Longrightarrow>
   consume_loop poll mm h i st = Some (None, st, Suc i)"
  by (subst consume_loop.simps) simp

lemma consume_loop_step:
  "\<not> cap_reached mm (message_count st) \<Longrightarrow> poll i = Inr b \<Longrightarrow> b \<noteq> [] \<Longrightarrow>
   consume_loop poll mm h i st = consume_loop poll mm h (Suc i) (process_batch mm h b st)"
  by (subst consume_loop.simps) simp

lemma consume_loop_uncapped:
  assumes "\<forall>j<k. \<exists>b. poll (i + j) = Inr b \<and> b \<noteq> []"
    and "\<not> cap_reached mm (message_count st + int (length (polled_records poll i k)))"
  shows "consume_loop poll mm h i st
         = consume_loop poll mm h (i + k) (receive_all h (polled_records poll i k) st)"
  using assms
proof (induction k arbitrary: i st)
  case 0
  then show ?case by simp
next
  case (Suc k)
  from Suc.prems(1) obtain b where b: "poll i = Inr b" "b \<noteq> []" by force
  then have ra: "records_at poll i = batch_records b" by (simp add: records_at_def)
  let ?total = "message_count st + int (length (batch_records b))
                  + int (length (polled_records poll (Suc i) k))"
  from Suc.prems(2) have nc: "\<not> cap_reached mm ?total"
    by (simp add: polled_records_Suc_front ra add.assoc)
  have nc0: "\<not> cap_reached mm (message_count st)"
    using nc cap_reached_mono[of mm "message_count st" ?total] by auto
  have nc1: "\<not> cap_reached mm (message_count st + int (length (batch_records b)) - 1)"
    using nc cap_reached_mono[of mm "message_count st + int (length (batch_records b)) - 1" ?total]
    by auto
  have pb: "process_batch mm h b st = receive_all h (batch_records b) st"
    by (rule process_batch_full) (simp add: nc1)
  have rest: "\<forall>j<k. \<exists>b. poll (Suc i + j) = Inr b \<and> b \<noteq> []"
  proof (intro allI impI)
    fix j assume "j < k"
    then have "Suc j < Suc k" by simp
    with Suc.prems(1) have "\<exists>b. poll (i + Suc j) = Inr b \<and> b \<noteq> []" by blast
    then show "\<exists>b. poll (Suc i + j) = Inr b \<and> b \<noteq> []" by simp
  qed
  have "consume_loop poll mm h (Suc i) (receive_all h (batch_records b) st)
        = consume_loop poll mm h (Suc i + k)
            (receive_all h (polled_records poll (Suc i) k) (receive_all h (batch_records b) st))"
    by (rule Suc.IH[OF rest]) (use nc in simp)
  then show ?case
    using consume_loop_step[of mm st poll i b h] nc0 b pb
    by (simp add: polled_records_Suc_front ra receive_all_append)
qed

lemma consume_loop_first_empty:
  assumes "\<forall>j<k. \<exists>b. poll (i + j) = Inr b \<and> b \<noteq> []"
    and "poll (i + k) = Inr []"
    and "\<not> cap_reached mm (message_count st + int (length (polled_records poll i k)))"
  shows "consume_loop poll mm h i st
         = Some (None, receive_all h (polled_records poll i k) st, Suc (i + k))"
  using consume_loop_uncapped[OF assms(1,3), of h] assms(2,3)
  by (simp add: consume_loop_empty)

lemma consume_loop_exact_cap:
  assumes "\<forall>j<k. \<exists>b. poll (i + j) = Inr b \<and> b \<noteq> []"
    and "records_at poll (i + k) \<noteq> []"
    and "m \<noteq> 0"
    and "message_count st + int (length (polled_records poll i (Suc k))) = m"
  shows "consume_loop poll (Some m) h i st
         = Some (None, receive_all h (polled_records poll i (Suc k)) st, Suc (i + k))"
proof -
  from assms(2) obtain b where b: "poll (i + k) = Inr b" "batch_records b \<noteq> []"
    by (auto simp: records_at_def split: sum.splits)
  then have ra: "records_at poll (i + k) = batch_records b" and bne: "b \<noteq> []"
    by (auto simp: records_at_def)
  let ?st = "receive_all h (polled_records poll i k) st"
  from assms(4) have lt: "message_count ?st + int (length (batch_records b)) = m"
    by (simp add: polled_records_Suc_back ra)
  from b(2) have pos: "1 \<le> int (length (batch_records b))"
    by (cases "batch_records b") simp_all
  from lt pos have "\<not> m \<le> message_count ?st" by linarith
  then have nc: "\<not> cap_reached (Some m) (message_count ?st)"
    by (simp add: cap_reached_def)
  then have nck: "\<not> cap_reached (Some m) (message_count st + int (length (polled_records poll i k)))"
    by simp
  from lt have "\<not> m \<le> message_count ?st + int (length (batch_records b)) - 1" by linarith
  then have nc1: "\<not> cap_reached (Some m) (message_count ?st + int (length (batch_records b)) - 1)"
    by (simp add: cap_reached_def)
  have pb: "process_batch (Some m) h b ?st = receive_all h (batch_records b) ?st"
    by (rule process_batch_full) (simp only: nc1 simp_thms)
  have fin: "cap_reached (Some m) (message_count (receive_all h (batch_records b) ?st))"
    using lt assms(3) by (simp add: cap_reached_def)
  have "consume_loop poll (Some m) h i st = consume_loop poll (Some m) h (i + k) ?st"
    by (rule consume_loop_uncapped[OF assms(1) nck])
  also have "\<dots> = consume_loop poll (Some m) h (Suc (i + k)) (receive_all h (batch_records b) ?st)"
    using consume_loop_step[of "Some m" ?st poll "i + k" b h] nc b(1) bne pb by simp
  also have "\<dots> = Some (None, receive_all h (batch_records b) ?st, Suc (i + k))"
    by (rule consume_loop_cap[OF fin])
  finally show ?thesis
    by (simp add: polled_records_Suc_back ra receive_all_append)
qed

lemma consume_loop_returns_empty:
  assumes "poll n = Inr []" and "i \<le> n"
  shows "\<exists>y. consume_loop poll mm h i st = Some y"
  using assms(2)
proof (induction "n - i" arbitrary: i st)
  case 0
  then have "i = n" by simp
  with assms(1) show ?case
    by (cases "cap_reached mm (message_count st)")
       (simp_all add: consume_loop_cap consume_loop_empty)
next
  case (Suc d)
  show ?case
  proof (cases "cap_reached mm (message_count st)")
    case True
    then show ?thesis by (simp add: consume_loop_cap)
  next
    case False
    show ?thesis
    proof (cases "poll i")
      case (Inl e)
      with False show ?thesis by (simp add: consume_loop_error)
    next
      case (Inr b)
      show ?thesis
      proof (cases "b = []")
        case True
        with False Inr show ?thesis by (simp add: consume_loop_empty)
      next
        case bne: False
        from Suc.hyps(2) Suc.prems have "d = n - Suc i" "Suc i \<le> n" by simp_all
        from Suc.hyps(1)[OF this, of "process_batch mm h b st"]
        show ?thesis using consume_loop_step[of mm st poll i b h] False Inr bne by simp
      qed
    qed
  qed
qed

lemma process_records_reaches_cap:
  assumes "cap_reached mm (message_count st + int (length recs) + d)" and "0 \<le> d"
  shows "cap_reached mm (message_count (process_records mm h recs st) + d)"
  using assms
proof (induction recs arbitrary: st)
  case Nil
  then show ?case by simp
next
  case (Cons r recs)
  show ?case
  proof (cases "cap_reached mm (message_count (receive h r st))")
    case True
    have "cap_reached mm (message_count (receive h r st) + d)"
      using cap_reached_mono[OF True, of "message_count (receive h r st) + d"] Cons.prems(2)
      by simp
    with True show ?thesis by (simp add: Let_def)
  next
    case False
    have "cap_reached mm (message_count (process_records mm h recs (receive h r st)) + d)"
      using Cons.prems by (intro Cons.IH) (simp_all add: add.assoc add.commute add.left_commute)
    with False show ?thesis by (simp add: Let_def)
  qed
qed

lemma process_batch_reaches_cap:
  assumes "cap_reached mm (message_count st + int (length (batch_records b)) + d)" and "0 \<le> d"
  shows "cap_reached mm (message_count (process_batch mm h b st) + d)"
  using assms
proof (induction b arbitrary: st)
  case Nil
  then show ?case by simp
next
  case (Cons x b)
  obtain tp recs where x: "x = (tp, recs)" by (cases x)
  have "cap_reached mm (message_count (process_records mm h recs st)
          + (int (length (batch_records b)) + d))"
    using Cons.prems x by (intro process_records_reaches_cap) (simp_all add: add.assoc)
  then have "cap_reached mm (message_count (process_batch mm h b (process_records mm h recs st)) + d)"
    using Cons.prems(2) by (intro Cons.IH) (simp_all add: add.assoc)
  with x show ?case by simp
qed

lemma consume_loop_returns_cap:
  assumes "cap_reached mm (message_count st + int (length (polled_records poll i k)))"
  shows "\<exists>y. consume_loop poll mm h i st = Some y"
  using assms
proof (induction k arbitrary: i st)
  case 0
  then show ?case by (simp add: consume_loop_cap)
next
  case (Suc k)
  show ?case
  proof (cases "cap_reached mm (message_count st)")
    case True
    then show ?thesis by (simp add: consume_loop_cap)
  next
    case False
    show ?thesis
    proof (cases "poll i")
      case (Inl e)
      with False show ?thesis by (simp add: consume_loop_error)
    next
      case (Inr b)
      show ?thesis
      proof (cases "b = []")
        case True
        with False Inr show ?thesis by (simp add: consume_loop_empty)
      next
        case bne: False
        from Inr have ra: "records_at poll i = batch_records b" by (simp add: records_at_def)
        have "cap_reached mm (message_count (process_batch mm h b st)
                + int (length (polled_records poll (Suc i) k)))"
          using Suc.prems
          by (intro process_batch_reaches_cap) (simp_all add: polled_records_Suc_front ra add.assoc)
        from Suc.IH[OF this]
        show ?thesis using consume_loop_step[of mm st poll i b h] False Inr bne by simp
      qed
    qed
  qed
qed

lemma process_records_handler:
  assumes "messages st = messages st'" and "message_count st = message_count st'"
  shows "messages (process_records mm h recs st) = messages (process_records mm h' recs st')
         \<and> message_count (process_records mm h recs st)
             = message_count (process_records mm h' recs st')"
  using assms
proof (induction recs arbitrary: st st')
  case Nil
  then show ?case by simp
next
  case (Cons r recs)
  have "messages (receive h r st) = messages (receive h' r st')"
    and "message_count (receive h r st) = message_count (receive h' r st')"
    using Cons.prems by simp_all
  from Cons.IH[OF this] this show ?case by (simp add: Let_def)
qed

lemma process_batch_handler:
  assumes "messages st = messages st'" and "message_count st = message_count st'"
  shows "messages (process_batch mm h b st) = messages (process_batch mm h' b st')
         \<and> message_count (process_batch mm h b st) = message_count (process_batch mm h' b st')"
  using assms
proof (induction b arbitrary: st st')
  case Nil
  then show ?case by simp
next
  case (Cons x b)
  obtain tp recs where x: "x = (tp, recs)" by (cases x)
  from process_records_handler[OF Cons.prems, of mm h recs h']
  have "messages (process_records mm h recs st) = messages (process_records mm h' recs st')"
    and "message_count (process_records mm h recs st)
         = message_count (process_records mm h' recs st')"
    by simp_all
  from Cons.IH[OF this] x show ?case by simp
qed

lemma consume_loop_handler:
  assumes "consume_loop poll mm h i st = Some y"
  shows "\<forall>st'. messages st = messages st' \<and> message_count st = message_count st' \<longrightarrow>
           (\<exists>stf'. consume_loop poll mm h' i st' = Some (fst y, stf', snd (snd y))
                   \<and> messages (fst (snd y)) = messages stf')"
proof (rule consume_loop.raw_induct[OF _ assms,
      where P = "\<lambda>poll mm h i st y.
        \<forall>st'. messages st = messages st' \<and> message_count st = message_count st' \<longrightarrow>
           (\<exists>stf'. consume_loop poll mm h' i st' = Some (fst y, stf', snd (snd y))
                   \<and> messages (fst (snd y)) = messages stf')"])
  fix loop :: "(nat \<Rightarrow> py_exception + batch) \<Rightarrow> int option \<Rightarrow> 'a handler option \<Rightarrow> nat \<Rightarrow>
      'a loop_state \<Rightarrow> (py_exception option \<times> 'a loop_state \<times> nat) option"
  fix poll mm h i st y
  assume IH: "\<And>poll mm h i st y. loop poll mm h i st = Some y \<Longrightarrow>
      \<forall>st'. messages st = messages st' \<and> message_count st = message_count st' \<longrightarrow>
           (\<exists>stf'. consume_loop poll mm h' i st' = Some (fst y, stf', snd (snd y))
                   \<and> messages (fst (snd y)) = messages stf')"
    and body: "(if cap_reached mm (message_count st) then Some (None, st, i)
      else (case poll i of
              Inl e \<Rightarrow> Some (Some e, st, Suc i)
            | Inr message_batch \<Rightarrow>
                (let st1 = process_batch mm h message_batch st
                 in if message_batch = [] then Some (None, st1, Suc i)
                    else loop poll mm h (Suc i) st1))) = Some y"
  show "\<forall>st'. messages st = messages st' \<and> message_count st = message_count st' \<longrightarrow>
           (\<exists>stf'. consume_loop poll mm h' i st' = Some (fst y, stf', snd (snd y))
                   \<and> messages (fst (snd y)) = messages stf')"
  proof (intro allI impI, elim conjE)
    fix st' :: "'b loop_state"
    assume m: "messages st = messages st'" and c: "message_count st = message_count st'"
    show "\<exists>stf'. consume_loop poll mm h' i st' = Some (fst y, stf', snd (snd y))
                   \<and> messages (fst (snd y)) = messages stf'"
    proof (cases "cap_reached mm (message_count st)")
      case True
      with body have "y = (None, st, i)" by simp
      moreover from True c have "consume_loop poll mm h' i st' = Some (None, st', i)"
        by (simp add: consume_loop_cap)
      ultimately show ?thesis using m by simp
    next
      case False
      then have nc': "\<not> cap_reached mm (message_count st')" using c by simp
      show ?thesis
      proof (cases "poll i")
        case (Inl e)
        with False body have "y = (Some e, st, Suc i)" by simp
        moreover from nc' Inl have "consume_loop poll mm h' i st' = Some (Some e, st', Suc i)"
          by (simp add: consume_loop_error)
        ultimately show ?thesis using m by simp
      next
        case (Inr b)
        note pb = process_batch_handler[OF m c, of mm h b h']
        show ?thesis
        proof (cases "b = []")
          case True
          with False Inr body have "y = (None, st, Suc i)" by simp
          moreover from nc' Inr True have "consume_loop poll mm h' i st' = Some (None, st', Suc i)"
            by (simp add: consume_loop_empty)
          ultimately show ?thesis using m by simp
        next
          case bne: False
          with False Inr body have "loop poll mm h (Suc i) (process_batch mm h b st) = Some y"
            by simp
          from IH[OF this] pb
          have "\<exists>stf'. consume_loop poll mm h' (Suc i) (process_batch mm h' b st')
                    = Some (fst y, stf', snd (snd y)) \<and> messages (fst (snd y)) = messages stf'"
            by blast
          then show ?thesis
            using consume_loop_step[of mm st' poll i b h'] nc' Inr bne by simp
        qed
      qed
    qed
  qed
qed

lemma consume_loop_consumed:
  assumes "consume_loop poll mm h i st = Some y"
  shows "\<exists>recs. fst (snd y) = receive_all h recs st"
proof (rule consume_loop.raw_induct[OF _ assms,
      where P = "\<lambda>poll mm h i st y. \<exists>recs. fst (snd y) = receive_all h recs st"])
  fix loop :: "(nat \<Rightarrow> py_exception + batch) \<Rightarrow> int option \<Rightarrow> 'a handler option \<Rightarrow> nat \<Rightarrow>
      'a loop_state \<Rightarrow> (py_exception option \<times> 'a loop_state \<times> nat) option"
  fix poll mm h i st y
  assume IH: "\<And>poll mm h i st y. loop poll mm h i st = Some y \<Longrightarrow>
      \<exists>recs. fst (snd y) = receive_all h recs st"
    and body: "(if cap_reached mm (message_count st) then Some (None, st, i)
      else (case poll i of
              Inl e \<Rightarrow> Some (Some e, st, Suc i)
            | Inr message_batch \<Rightarrow>
                (let st1 = process_batch mm h message_batch st
                 in if message_batch = [] then Some (None, st1, Suc i)
                    else loop poll mm h (Suc i) st1))) = Some y"
  have self: "st = receive_all h [] st" by simp
  show "\<exists>recs. fst (snd y) = receive_all h recs st"
  proof (cases "cap_reached mm (message_count st)")
    case True
    with body have "fst (snd y) = st" by auto
    with self show ?thesis by metis
  next
    case False
    show ?thesis
    proof (cases "poll i")
      case (Inl e)
      with False body have "fst (snd y) = st" by auto
      with self show ?thesis by metis
    next
      case (Inr b)
      show ?thesis
      proof (cases "b = []")
        case True
        with False Inr body have "fst (snd y) = st" by auto
        with self show ?thesis by metis
      next
        case bne: False
        with False Inr body have "loop poll mm h (Suc i) (process_batch mm h b st) = Some y"
          by simp
        from IH[OF this] obtain recs where
          r: "fst (snd y) = receive_all h recs (process_batch mm h b st)" by blast
        from process_batch_consumed[of mm h b st] obtain recs0 where
          "process_batch mm h b st = receive_all h recs0 st" by blast
        with r have "fst (snd y) = receive_all h (recs0 @ recs) st"
          by (simp add: receive_all_append)
        then show ?thesis by blast
      qed
    qed
  qed
qed

lemma handler_state_receive_None [simp]: "handler_state (receive None r st) = handler_state st"
  by (simp add: receive_def Let_def)

lemma loop_log_receive_all:
  "loop_log (receive_all h recs st) = loop_log st @ handled_lines h (handler_state st) recs"
proof (induction recs arbitrary: st)
  case Nil
  then show ?case by simp
next
  case (Cons r recs)
  show ?case
  proof (cases h)
    case None
    with Cons.IH[of "receive None r st"] show ?thesis
      by (simp add: receive_def Let_def)
  next
    case (Some f)
    obtain e hs where f: "f (handler_state st) (rec_value r) r = (e, hs)"
      by (cases "f (handler_state st) (rec_value r) r")
    with Some Cons.IH[of "receive (Some f) r st"] show ?thesis
      by (cases e) (simp_all add: receive_def Let_def)
  qed
qed

section \<open>What \<^verbatim>\<open>consume_messages\<close> returns\<close>

lemma topic_or_default_idem:
  "topic_or_default topic c = Inr t \<Longrightarrow> topic_or_default (Some t) c = Inr t"
  by (auto simp: topic_or_default_def split: option.splits if_splits)

lemma sample_session_config: "config sample_session = sample_config"
  by (simp add: sample_session_def)

lemma sample_topic_Some: "topic_or_default (Some (VStr ''events'')) sample_config = Inr (VStr ''events'')"
  by (simp add: topic_or_default_def)

lemma sample_get_consumer_Some:
  "get_consumer new_consumer (Some (VStr ''events'')) sample_session
   = (Inr 2, sample_session\<lparr>consumers := [(VStr ''events'', 2)],
                            log_lines := [InfoConsumerCreated (VStr ''events'')],
                            constructed := [(Consumer, VStr ''events'')]\<rparr>)"
  using sample_consumer_config
  by (auto simp: get_consumer_def sample_topic_Some sample_session_def new_consumer_def)

lemma consume_messages_loop:
  assumes "topic_or_default topic (config s) = Inr t"
    and "get_consumer KC (Some t) s = (Inr c, s1)"
  shows "consume_messages KC poll topic h h0 mm tmo s =
         (case consume_loop (poll c tmo) mm h 0
                 \<lparr>messages = [], message_count = 0, handler_state = h0,
                  loop_log = log_lines s1\<rparr> of
            None \<Rightarrow> None
          | Some (None, st, n) \<Rightarrow>
              Some (\<lparr>outcome = Inr (messages st), polls = n, handler_after = handler_state st\<rparr>,
                    s1\<lparr>log_lines := loop_log st\<rparr>)
          | Some (Some e, st, n) \<Rightarrow>
              Some (\<lparr>outcome = Inl (ConsumptionFailed e), polls = n,
                     handler_after = handler_state st\<rparr>,
                    s1\<lparr>log_lines := loop_log st @ [ErrorConsumeFailed t e]\<rparr>))"
  using assms by (simp add: consume_messages_def)

lemma returned_loop:
  assumes "topic_or_default topic (config s) = Inr t"
    and "get_consumer KC (Some t) s = (Inr c, s1)"
    and "consume_loop (poll c tmo) mm h 0
           \<lparr>messages = [], message_count = 0, handler_state = h0, loop_log = log_lines s1\<rparr>
         = Some (None, st, n)"
  shows "returned (consume_messages KC poll topic h h0 mm tmo s) = Some (Inr (messages st), n)"
  using assms(3) by (simp add: consume_messages_loop[OF assms(1,2)] returned_def)

text \<open>
  C7. Let the polls \<open>0, \<dots>, k\<close> of the consumer deliver exactly three records, the third
  of them in poll \<open>k\<close>, with no empty and no failing poll before. Then
  \<^verbatim>\<open>consume_messages\<close> with \<^verbatim>\<open>max_messages=3\<close> returns the values of these three records
  in the order of their arrival, and it has made \<open>k + 1\<close> polls: none after the one that
  delivered the third record.
\<close>

theorem consume_three_available:
  assumes "topic_or_default topic (config s) = Inr t"
    and "get_consumer KC (Some t) s = (Inr c, s1)"
    and "\<forall>j<k. \<exists>b. poll c tmo j = Inr b \<and> b \<noteq> []"
    and "records_at (poll c tmo) k \<noteq> []"
    and "length (polled_records (poll c tmo) 0 (Suc k)) = 3"
  shows "returned (consume_messages KC poll topic h h0 (Some 3) tmo s)
         = Some (Inr (map rec_value (polled_records (poll c tmo) 0 (Suc k))), Suc k)"
proof -
  let ?st0 = "\<lparr>messages = [], message_count = 0, handler_state = h0, loop_log = log_lines s1\<rparr>"
  have "consume_loop (poll c tmo) (Some 3) h 0 ?st0
        = Some (None, receive_all h (polled_records (poll c tmo) 0 (Suc k)) ?st0, Suc (0 + k))"
    by (rule consume_loop_exact_cap) (use assms(3-5) in simp_all)
  from returned_loop[where poll = poll, OF assms(1,2) this] show ?thesis by simp
qed

lemma three_in_two_polls_facts:
  "\<forall>j<Suc 0. \<exists>b. polls_then_empty three_in_two_polls 2 1000 j = Inr b \<and> b \<noteq> []"
  "records_at (polls_then_empty three_in_two_polls 2 1000) (Suc 0) \<noteq> []"
  "polled_records (polls_then_empty three_in_two_polls 2 1000) 0 (Suc (Suc 0))
   = [msg 0 0 ''a'', msg 1 0 ''b'', msg 0 1 ''c'']"
  by (simp_all add: polls_then_empty_def three_in_two_polls_def records_at_def
      polled_records_def batch_records_def)

theorem consume_three_available_witness:
  "returned (consume_messages new_consumer (polls_then_empty three_in_two_polls) None
      (Some failing_handler) 0 (Some 3) 1000 sample_session)
   = Some (Inr [JStr ''a'', JStr ''b'', JStr ''c''], 2)"
  using consume_three_available[where poll = "polls_then_empty three_in_two_polls"
      and k = "Suc 0" and tmo = 1000 and h = "Some failing_handler" and ?h0.0 = 0,
      OF _ sample_get_consumer_Some, of None]
    three_in_two_polls_facts
  by (simp add: sample_session_config sample_topic msg_def)

text \<open>
  C8. \<^verbatim>\<open>consume_messages\<close> returns whenever some poll answers with the empty batch, and
  whenever the records of the first polls are enough to reach the cap. When poll \<open>n\<close> is
  the first empty one, no poll before it fails and the cap is not reached by the
  records delivered before it, the call returns all these records in order and makes
  \<open>n + 1\<close> polls; with \<^verbatim>\<open>max_messages=5\<close> and two records delivered it returns two messages.
\<close>

theorem consume_stops_at_first_empty_poll:
  assumes "topic_or_default topic (config s) = Inr t"
    and "get_consumer KC (Some t) s = (Inr c, s1)"
  shows "(poll c tmo n = Inr [] \<longrightarrow>
            (\<exists>res. consume_messages KC poll topic h h0 mm tmo s = Some res))
         \<and> (cap_reached mm (int (length (polled_records (poll c tmo) 0 n))) \<longrightarrow>
            (\<exists>res. consume_messages KC poll topic h h0 mm tmo s = Some res))
         \<and> ((\<forall>j<n. \<exists>b. poll c tmo j = Inr b \<and> b \<noteq> []) \<and> poll c tmo n = Inr []
              \<and> \<not> cap_reached mm (int (length (polled_records (poll c tmo) 0 n))) \<longrightarrow>
            returned (consume_messages KC poll topic h h0 mm tmo s)
              = Some (Inr (map rec_value (polled_records (poll c tmo) 0 n)), Suc n))
         \<and> ((\<forall>j<n. \<exists>b. poll c tmo j = Inr b \<and> b \<noteq> []) \<and> poll c tmo n = Inr []
              \<and> length (polled_records (poll c tmo) 0 n) = 2 \<longrightarrow>
            (\<exists>msgs. returned (consume_messages KC poll topic h h0 (Some 5) tmo s)
                       = Some (Inr msgs, Suc n) \<and> length msgs = 2))"
proof -
  let ?st0 = "\<lparr>messages = [], message_count = 0, handler_state = h0, loop_log = log_lines s1\<rparr>"
  note unf = consume_messages_loop[where poll = poll, OF assms]
  have ret: "\<exists>res. consume_messages KC poll topic h h0 mm tmo s = Some res"
    if "\<exists>y. consume_loop (poll c tmo) mm h 0 ?st0 = Some y"
  proof -
    from that obtain e st k where "consume_loop (poll c tmo) mm h 0 ?st0 = Some (e, st, k)"
      by (metis prod_cases3)
    then show ?thesis by (cases e) (simp_all add: unf)
  qed
  have first: "returned (consume_messages KC poll topic h h0 mm' tmo s)
              = Some (Inr (map rec_value (polled_records (poll c tmo) 0 n)), Suc n)"
    if "\<forall>j<n. \<exists>b. poll c tmo j = Inr b \<and> b \<noteq> []" and "poll c tmo n = Inr []"
      and "\<not> cap_reached mm' (int (length (polled_records (poll c tmo) 0 n)))" for mm'
  proof -
    have "consume_loop (poll c tmo) mm' h 0 ?st0
          = Some (None, receive_all h (polled_records (poll c tmo) 0 n) ?st0, Suc (0 + n))"
      by (rule consume_loop_first_empty) (use that in simp_all)
    from returned_loop[where poll = poll, OF assms this] show ?thesis by simp
  qed
  have 1: "poll c tmo n = Inr [] \<longrightarrow>
            (\<exists>res. consume_messages KC poll topic h h0 mm tmo s = Some res)"
    using consume_loop_returns_empty[of "poll c tmo" n 0 mm h ?st0] ret by blast
  have 2: "cap_reached mm (int (length (polled_records (poll c tmo) 0 n))) \<longrightarrow>
            (\<exists>res. consume_messages KC poll topic h h0 mm tmo s = Some res)"
    using consume_loop_returns_cap[of mm ?st0 "poll c tmo" 0 n h] ret by simp
  have 3: "(\<forall>j<n. \<exists>b. poll c tmo j = Inr b \<and> b \<noteq> []) \<and> poll c tmo n = Inr []
              \<and> \<not> cap_reached mm (int (length (polled_records (poll c tmo) 0 n))) \<longrightarrow>
            returned (consume_messages KC poll topic h h0 mm tmo s)
              = Some (Inr (map rec_value (polled_records (poll c tmo) 0 n)), Suc n)"
    using first[of mm] by blast
  have 4: "(\<forall>j<n. \<exists>b. poll c tmo j = Inr b \<and> b \<noteq> []) \<and> poll c tmo n = Inr []
              \<and> length (polled_records (poll c tmo) 0 n) = 2 \<longrightarrow>
            (\<exists>msgs. returned (consume_messages KC poll topic h h0 (Some 5) tmo s)
                       = Some (Inr msgs, Suc n) \<and> length msgs = 2)"
  proof (intro impI, elim conjE)
    assume a: "\<forall>j<n. \<exists>b. poll c tmo j = Inr b \<and> b \<noteq> []" "poll c tmo n = Inr []"
      and l: "length (polled_records (poll c tmo) 0 n) = 2"
    from l have "\<not> cap_reached (Some 5) (int (length (polled_records (poll c tmo) 0 n)))"
      by (simp add: cap_reached_def)
    from first[OF a this] l show "\<exists>msgs. returned (consume_messages KC poll topic h h0 (Some 5) tmo s)
                       = Some (Inr msgs, Suc n) \<and> length msgs = 2"
      by simp
  qed
  from 1 2 3 4 show ?thesis by blast
qed

lemma two_then_nothing_facts:
  "\<forall>j<Suc 0. \<exists>b. polls_then_empty two_then_nothing 2 1000 j = Inr b \<and> b \<noteq> []"
  "polls_then_empty two_then_nothing 2 1000 (Suc 0) = Inr []"
  "polled_records (polls_then_empty two_then_nothing 2 1000) 0 (Suc 0)
   = [msg 0 0 ''a'', msg 0 1 ''b'']"
  by (simp_all add: polls_then_empty_def two_then_nothing_def records_at_def
      polled_records_def batch_records_def)

theorem consume_stops_at_first_empty_poll_witness:
  "returned (consume_messages new_consumer (polls_then_empty two_then_nothing) None
      (Some quiet_handler) 0 (Some 5) 1000 sample_session)
   = Some (Inr [JStr ''a'', JStr ''b''], 2)"
  using consume_stops_at_first_empty_poll[where poll = "polls_then_empty two_then_nothing"
      and n = "Suc 0" and tmo = 1000 and h = "Some quiet_handler" and ?h0.0 = 0
      and mm = "Some 5", OF _ sample_get_consumer_Some, of None]
    two_then_nothing_facts
  by (simp add: sample_session_config sample_topic msg_def cap_reached_def)

section \<open>Handlers that raise\<close>

lemma returned_handler_le:
  assumes "returned (consume_messages KC poll topic h h0 mm tmo s) = Some x"
  shows "returned (consume_messages KC poll topic h' h0' mm tmo s) = Some x"
proof (cases "topic_or_default topic (config s)")
  case (Inl e)
  with assms show ?thesis by (simp add: consume_messages_def returned_def)
next
  case (Inr t)
  obtain g s1 where g: "get_consumer KC (Some t) s = (g, s1)"
    by (cases "get_consumer KC (Some t) s")
  show ?thesis
  proof (cases g)
    case (Inl e)
    with Inr g assms show ?thesis by (simp add: consume_messages_def returned_def)
  next
    case c: (Inr c)
    let ?st0 = "\<lparr>messages = [], message_count = 0, handler_state = h0, loop_log = log_lines s1\<rparr>"
    let ?st0' = "\<lparr>messages = [], message_count = 0, handler_state = h0', loop_log = log_lines s1\<rparr>"
    note gc = g[unfolded c]
    note unf = consume_messages_loop[where poll = poll, OF Inr gc]
    from assms obtain e st n where y: "consume_loop (poll c tmo) mm h 0 ?st0 = Some (e, st, n)"
      by (auto simp: unf returned_def split: option.splits)
    from consume_loop_handler[OF y, of h'] obtain st' where
      y': "consume_loop (poll c tmo) mm h' 0 ?st0' = Some (e, st', n)"
      and m: "messages st = messages st'"
      by force
    from assms y have "x = (case e of None \<Rightarrow> Inr (messages st)
                            | Some e' \<Rightarrow> Inl (ConsumptionFailed e'), n)"
      by (cases e) (simp_all add: unf returned_def)
    with y' m show ?thesis
      by (cases e) (simp_all add: unf returned_def)
  qed
qed

lemma returned_handler_eq:
  "returned (consume_messages KC poll topic h h0 mm tmo s)
   = returned (consume_messages KC poll topic h' h0' mm tmo s)"
proof (cases "returned (consume_messages KC poll topic h h0 mm tmo s)")
  case None
  show ?thesis
  proof (cases "returned (consume_messages KC poll topic h' h0' mm tmo s)")
    case n: None
    with None show ?thesis by simp
  next
    case (Some x)
    from returned_handler_le[OF this, of h h0] None show ?thesis by simp
  qed
next
  case (Some x)
  from returned_handler_le[OF this, of h' h0'] Some show ?thesis by simp
qed

lemma consume_messages_log:
  assumes "topic_or_default topic (config s) = Inr t"
    and "get_consumer KC (Some t) s = (Inr c, s1)"
    and "consume_messages KC poll topic h h0 mm tmo s = Some (r, s')"
    and "outcome r = Inr msgs"
  shows "\<exists>recs. msgs = map rec_value recs \<and> log_lines s' = log_lines s1 @ handled_lines h h0 recs"
proof -
  let ?st0 = "\<lparr>messages = [], message_count = 0, handler_state = h0, loop_log = log_lines s1\<rparr>"
  note unf = consume_messages_loop[where poll = poll, OF assms(1,2)]
  from assms(3,4) obtain st n where y: "consume_loop (poll c tmo) mm h 0 ?st0 = Some (None, st, n)"
    and r: "msgs = messages st" "s' = s1\<lparr>log_lines := loop_log st\<rparr>"
    by (auto simp: unf split: option.splits)
  from consume_loop_consumed[OF y] obtain recs where "st = receive_all h recs ?st0" by auto
  with r have "msgs = map rec_value recs \<and> log_lines s' = log_lines s1 @ handled_lines h h0 recs"
    by (simp add: loop_log_receive_all)
  then show ?thesis by blast
qed

text \<open>
  C9. What \<^verbatim>\<open>consume_messages\<close> returns (the list or the exception, and the number of
  polls, or no return at all) does not depend on the handler: with a handler that
  raises it is what it is with a handler that never raises, or with none. When the call
  returns a list, the log holds for each returned record the line of its receipt and,
  right after it, the line of the handler's exception if the handler raised one.
\<close>

theorem handler_failure_swallowed:
  "returned (consume_messages KC poll topic (Some h) h0 mm tmo s)
     = returned (consume_messages KC poll topic h' h0' mm tmo s)
   \<and> (\<forall>t c s1 r s' msgs.
         topic_or_default topic (config s) = Inr t
         \<and> get_consumer KC (Some t) s = (Inr c, s1)
         \<and> consume_messages KC poll topic (Some h) h0 mm tmo s = Some (r, s')
         \<and> outcome r = Inr msgs
         \<longrightarrow> (\<exists>recs. msgs = map rec_value recs
                     \<and> log_lines s' = log_lines s1 @ handled_lines (Some h) h0 recs))"
  using returned_handler_eq[of KC poll topic "Some h" h0 mm tmo s h' h0']
    consume_messages_log[of topic s _ KC _ _ poll "Some h" h0 mm tmo]
  by blast

lemma failing_handler_run:
  "\<exists>r s'. consume_messages new_consumer (polls_then_empty three_in_two_polls) None
      (Some failing_handler) 0 (Some 3) 1000 sample_session = Some (r, s')
    \<and> outcome r = Inr [JStr ''a'', JStr ''b'', JStr ''c'']"
  by (simp add: consume_messages_def sample_session_config sample_topic
      sample_get_consumer_Some consume_loop.simps polls_then_empty_def three_in_two_polls_def
      msg_def cap_reached_def receive_def failing_handler_def Let_def)

theorem handler_failure_swallowed_witness:
  "returned (consume_messages new_consumer (polls_then_empty three_in_two_polls) None
      (Some failing_handler) 0 (Some 3) 1000 sample_session)
   = returned (consume_messages new_consumer (polls_then_empty three_in_two_polls) None
      (Some quiet_handler) 0 (Some 3) 1000 sample_session)
   \<and> (\<exists>recs. [JStr ''a'', JStr ''b'', JStr ''c''] = map rec_value recs
         \<and> log_lines (snd (the (consume_messages new_consumer
               (polls_then_empty three_in_two_polls) None (Some failing_handler) 0 (Some 3) 1000
               sample_session)))
           = [InfoConsumerCreated (VStr ''events'')] @ handled_lines (Some failing_handler) 0 recs)"
proof -
  from failing_handler_run obtain r s' where
    run: "consume_messages new_consumer (polls_then_empty three_in_two_polls) None
      (Some failing_handler) 0 (Some 3) 1000 sample_session = Some (r, s')"
    and out: "outcome r = Inr [JStr ''a'', JStr ''b'', JStr ''c'']"
    by blast
  have t: "topic_or_default None (config sample_session) = Inr (VStr ''events'')"
    by (simp add: sample_session_config sample_topic)
  note inst = handler_failure_swallowed[of new_consumer "polls_then_empty three_in_two_polls"
      None failing_handler 0 "Some 3" 1000 sample_session "Some quiet_handler" 0]
  from inst have 1: "returned (consume_messages new_consumer (polls_then_empty three_in_two_polls)
      None (Some failing_handler) 0 (Some 3) 1000 sample_session)
   = returned (consume_messages new_consumer (polls_then_empty three_in_two_polls) None
      (Some quiet_handler) 0 (Some 3) 1000 sample_session)"
    by (rule conjunct1)
  from inst t sample_get_consumer_Some run out
  have "\<exists>recs. [JStr ''a'', JStr ''b'', JStr ''c''] = map rec_value recs
         \<and> log_lines s' = log_lines (sample_session\<lparr>consumers := [(VStr ''events'', 2)],
                            log_lines := [InfoConsumerCreated (VStr ''events'')],
                            constructed := [(Consumer, VStr ''events'')]\<rparr>)
             @ handled_lines (Some failing_handler) 0 recs"
    by blast
  with 1 run show ?thesis by simp
qed

section \<open>The cap across partitions, and a cap of zero\<close>

lemma process_records_cap_cong:
  assumes "\<And>c. cap_reached mm c = cap_reached mm' c"
  shows "process_records mm h recs st = process_records mm' h recs st"
  by (induction recs arbitrary: st) (simp_all add: Let_def assms)

lemma process_batch_cap_cong:
  assumes "\<And>c. cap_reached mm c = cap_reached mm' c"
  shows "process_batch mm h b st = process_batch mm' h b st"
proof (induction b arbitrary: st)
  case Nil
  then show ?case by simp
next
  case (Cons x b)
  obtain tp recs where "x = (tp, recs)" by (cases x)
  with Cons.IH process_records_cap_cong[of mm mm' h recs st, OF assms] show ?case by simp
qed

lemma consume_loop_cap_cong:
  assumes "consume_loop poll mm h i st = Some y"
  shows "\<forall>mm'. (\<forall>c. cap_reached mm c = cap_reached mm' c) \<longrightarrow>
           consume_loop poll mm' h i st = Some y"
proof (rule consume_loop.raw_induct[OF _ assms,
      where P = "\<lambda>poll mm h i st y. \<forall>mm'. (\<forall>c. cap_reached mm c = cap_reached mm' c) \<longrightarrow>
           consume_loop poll mm' h i st = Some y"])
  fix loop :: "(nat \<Rightarrow> py_exception + batch) \<Rightarrow> int option \<Rightarrow> 'a handler option \<Rightarrow> nat \<Rightarrow>
      'a loop_state \<Rightarrow> (py_exception option \<times> 'a loop_state \<times> nat) option"
  fix poll mm h i st y
  assume IH: "\<And>poll mm h i st y. loop poll mm h i st = Some y \<Longrightarrow>
      \<forall>mm'. (\<forall>c. cap_reached mm c = cap_reached mm' c) \<longrightarrow>
           consume_loop poll mm' h i st = Some y"
    and body: "(if cap_reached mm (message_count st) then Some (None, st, i)
      else (case poll i of
              Inl e \<Rightarrow> Some (Some e, st, Suc i)
            | Inr message_batch \<Rightarrow>
                (let st1 = process_batch mm h message_batch st
                 in if message_batch = [] then Some (None, st1, Suc i)
                    else loop poll mm h (Suc i) st1))) = Some y"
  show "\<forall>mm'. (\<forall>c. cap_reached mm c = cap_reached mm' c) \<longrightarrow>
           consume_loop poll mm' h i st = Some y"
  proof (intro allI impI)
    fix mm'
    assume eq: "\<forall>c. cap_reached mm c = cap_reached mm' c"
    then have pb: "\<And>b st. process_batch mm h b st = process_batch mm' h b st"
      by (intro process_batch_cap_cong) simp
    show "consume_loop poll mm' h i st = Some y"
    proof (cases "cap_reached mm (message_count st)")
      case True
      with body have "y = (None, st, i)" by simp
      moreover from True eq have "cap_reached mm' (message_count st)" by simp
      ultimately show ?thesis by (simp add: consume_loop_cap)
    next
      case False
      with eq have nc': "\<not> cap_reached mm' (message_count st)" by simp
      show ?thesis
      proof (cases "poll i")
        case (Inl e)
        with False body have "y = (Some e, st, Suc i)" by simp
        with nc' Inl show ?thesis by (simp add: consume_loop_error)
      next
        case (Inr b)
        show ?thesis
        proof (cases "b = []")
          case True
          with False Inr body have "y = (None, st, Suc i)" by simp
          with nc' Inr True show ?thesis by (simp add: consume_loop_empty)
        next
          case bne: False
          with False Inr body have "loop poll mm h (Suc i) (process_batch mm h b st) = Some y"
            by simp
          from IH[OF this] eq have "consume_loop poll mm' h (Suc i) (process_batch mm h b st) = Some y"
            by blast
          then show ?thesis
            using consume_loop_step[of mm' st poll i b h] nc' Inr bne by (simp add: pb)
        qed
      qed
    qed
  qed
qed

lemma consume_loop_zero_cap:
  "consume_loop poll (Some 0) h i st = consume_loop poll None h i st"
proof -
  have eq: "\<forall>c. cap_reached (Some 0) c = cap_reached None c"
    and eq': "\<forall>c. cap_reached None c = cap_reached (Some 0) c"
    by (simp_all add: cap_reached_def)
  show ?thesis
  proof (cases "consume_loop poll (Some 0) h i st")
    case None
    show ?thesis
    proof (cases "consume_loop poll None h i st")
      case n: None
      with None show ?thesis by simp
    next
      case (Some y)
      from consume_loop_cap_cong[OF this] eq' None show ?thesis by simp
    qed
  next
    case (Some y)
    from consume_loop_cap_cong[OF this] eq Some show ?thesis by simp
  qed
qed

text \<open>
  C10. The cap is tested inside the loop over the records of one partition only. With
  \<^verbatim>\<open>max_messages=2\<close> and a single poll that delivers two records in each of two
  partitions, \<^verbatim>\<open>consume_messages\<close> returns three messages. With \<^verbatim>\<open>max_messages=0\<close> it
  behaves as with no cap at all: on the same schedule it returns all four messages,
  after the empty second poll.
\<close>

theorem cap_per_partition_and_zero_cap:
  "returned (consume_messages new_consumer (polls_then_empty two_partitions) None None (0::nat)
      (Some 2) 1000 sample_session)
     = Some (Inr [JStr ''a'', JStr ''b'', JStr ''c''], 1)
   \<and> consume_messages KC poll topic h h0 (Some 0) tmo s
     = consume_messages KC poll topic h h0 None tmo s
   \<and> returned (consume_messages new_consumer (polls_then_empty two_partitions) None None (0::nat)
      (Some 0) 1000 sample_session)
     = Some (Inr [JStr ''a'', JStr ''b'', JStr ''c'', JStr ''d''], 2)"
proof (intro conjI)
  show "returned (consume_messages new_consumer (polls_then_empty two_partitions) None None (0::nat)
      (Some 2) 1000 sample_session)
     = Some (Inr [JStr ''a'', JStr ''b'', JStr ''c''], 1)"
    by (simp add: consume_messages_def returned_def sample_session_config sample_topic
      sample_get_consumer_Some consume_loop.simps polls_then_empty_def two_partitions_def
      msg_def cap_reached_def receive_def Let_def)
  show "consume_messages KC poll topic h h0 (Some 0) tmo s
     = consume_messages KC poll topic h h0 None tmo s"
    unfolding consume_messages_def consume_loop_zero_cap by (rule refl)
  show "returned (consume_messages new_consumer (polls_then_empty two_partitions) None None (0::nat)
      (Some 0) 1000 sample_session)
     = Some (Inr [JStr ''a'', JStr ''b'', JStr ''c'', JStr ''d''], 2)"
    by (simp add: consume_messages_def returned_def sample_session_config sample_topic
      sample_get_consumer_Some consume_loop.simps polls_then_empty_def two_partitions_def
      msg_def cap_reached_def receive_def Let_def)
qed

section \<open>What the operations do to the configuration\<close>

lemma config_get_producer: "config (snd (get_producer KP topic s)) = config s"
  by (simp add: get_producer_def split: sum.splits option.splits)

lemma config_get_consumer: "config (snd (get_consumer KC topic s)) = config s"
  by (simp add: get_consumer_def split: sum.splits option.splits)

lemma config_produce_message:
  "config (snd (produce_message KP send message key topic s)) = config s"
proof (cases "topic_or_default topic (config s)")
  case (Inl e)
  then show ?thesis by (simp add: produce_message_def)
next
  case (Inr t)
  obtain r s1 where g: "get_producer KP (Some t) s = (r, s1)" by (cases "get_producer KP (Some t) s")
  with config_get_producer[of KP "Some t" s] have "config s1 = config s" by simp
  with Inr g show ?thesis
    by (simp add: produce_message_def split: sum.splits)
qed

lemma config_consume_messages:
  assumes "consume_messages KC poll topic h h0 mm tmo s = Some (r, s')"
  shows "config s' = config s"
proof (cases "topic_or_default topic (config s)")
  case (Inl e)
  with assms show ?thesis by (simp add: consume_messages_def)
next
  case (Inr t)
  obtain g s1 where g: "get_consumer KC (Some t) s = (g, s1)" by (cases "get_consumer KC (Some t) s")
  with config_get_consumer[of KC "Some t" s] have "config s1 = config s" by simp
  with Inr g assms show ?thesis
    by (auto simp: consume_messages_def split: sum.splits option.splits)
qed

lemma config_close_each: "config (snd (close_each cl entry hs s)) = config s"
  by (induction cl entry hs s rule: close_each.induct) (auto split: option.splits)

lemma config_close: "config (close cl s) = config s"
proof -
  obtain r1 s1 where 1: "close_each cl InfoClosedProducer (producers s) s = (r1, s1)"
    by (cases "close_each cl InfoClosedProducer (producers s) s")
  obtain r2 s2 where 2: "close_each cl InfoClosedConsumer (consumers s1) s1 = (r2, s2)"
    by (cases "close_each cl InfoClosedConsumer (consumers s1) s1")
  from 1 config_close_each[of cl InfoClosedProducer "producers s" s] have "config s1 = config s"
    by simp
  moreover from 2 config_close_each[of cl InfoClosedConsumer "consumers s1" s1]
  have "config s2 = config s1" by simp
  ultimately show ?thesis using 1 2
    by (simp add: close_def split: option.splits)
qed

lemma create_jaas_config_config:
  "config (snd (create_jaas_config w s)) =
     (if fst (create_jaas_config w s) = None
      then (config s)(''jaas_config_path'' \<mapsto> VStr jaas_config_path) else config s)"
  by (simp add: create_jaas_config_def split: sum.splits option.splits)

lemma config_setup_kerberos:
  "config (snd (setup_kerberos g uid w s)) =
     (if \<not> truthy (config s ''jaas_config_path'') \<and> fst (setup_kerberos g uid w s) = None
      then (config s)(''jaas_config_path'' \<mapsto> VStr jaas_config_path) else config s)"
proof -
  define s2 where "s2 = (if \<not> g then s\<lparr>log_lines := log_lines s @ [WarnGssapiUnavailable]\<rparr> else s)
      \<lparr>os_environ := (os_environ (if \<not> g then s\<lparr>log_lines := log_lines s @ [WarnGssapiUnavailable]\<rparr> else s))
                   (''KRB5_CONFIG'' \<mapsto> ''/etc/krb5.conf'',
                    ''KRB5CCNAME'' \<mapsto> ''FILE:/tmp/krb5cc_'' @ str_nat uid)\<rparr>"
  have c2: "config s2 = config s" by (simp add: s2_def)
  obtain r s3 where cj: "create_jaas_config w s2 = (r, s3)" by (cases "create_jaas_config w s2")
  from create_jaas_config_config[of w s2] cj c2
  have c3: "config s3 = (if r = None then (config s)(''jaas_config_path'' \<mapsto> VStr jaas_config_path)
      else config s)" by simp
  have unf: "setup_kerberos g uid w s =
     (if \<not> truthy (config s2 ''jaas_config_path'')
         then (case create_jaas_config w s2 of
                 (Some e, s3) \<Rightarrow> (Some (KerberosSetupFailed e), s3)
               | (None, s3) \<Rightarrow> (None, s3\<lparr>log_lines := log_lines s3 @ [InfoKerberosConfigured]\<rparr>))
         else (case subscript (config s2) ''jaas_config_path'' of
                 Inl e \<Rightarrow> (Some (KerberosSetupFailed e), s2)
               | Inr path \<Rightarrow>
                   (None,
                    s2\<lparr>os_environ := (os_environ s2)(''JAVA_OPTS'' \<mapsto> java_opts (py_str path)),
                       log_lines := log_lines s2 @ [InfoKerberosConfigured]\<rparr>)))"
    unfolding setup_kerberos_def s2_def Let_def by (rule refl)
  show ?thesis
    unfolding unf using cj c2 c3
    by (auto split: option.splits sum.splits)
qed

text \<open>
  C5, as the code has it. \<^verbatim>\<open>get_producer\<close>, \<^verbatim>\<open>get_consumer\<close>, \<^verbatim>\<open>produce_message\<close>,
  \<^verbatim>\<open>consume_messages\<close> and \<^verbatim>\<open>close\<close> leave the configuration as it is. The credential
  setup leaves every entry but \<^verbatim>\<open>jaas_config_path\<close> as it is; it stores the path of the
  generated JAAS file under that key when the key was absent or empty and the file
  could be written.
\<close>

theorem config_fixed_but_jaas_path:
  "config (snd (get_producer KP topic s)) = config s
   \<and> config (snd (get_consumer KC topic s)) = config s
   \<and> config (snd (produce_message KP send message key topic s)) = config s
   \<and> (\<forall>r s'. consume_messages KC poll topic h h0 mm tmo s = Some (r, s') \<longrightarrow> config s' = config s)
   \<and> config (close cl s) = config s
   \<and> config (snd (setup_kerberos g uid w s)) =
       (if \<not> truthy (config s ''jaas_config_path'') \<and> fst (setup_kerberos g uid w s) = None
        then (config s)(''jaas_config_path'' \<mapsto> VStr jaas_config_path) else config s)"
proof (intro conjI allI impI)
  show "config (snd (get_producer KP topic s)) = config s"
    by (rule config_get_producer)
  show "config (snd (get_consumer KC topic s)) = config s"
    by (rule config_get_consumer)
  show "config (snd (produce_message KP send message key topic s)) = config s"
    by (rule config_produce_message)
  show "config s' = config s"
    if "consume_messages KC poll topic h h0 mm tmo s = Some (r, s')" for r s'
    using that by (rule config_consume_messages)
  show "config (close cl s) = config s"
    by (rule config_close)
  show "config (snd (setup_kerberos g uid w s)) =
       (if \<not> truthy (config s ''jaas_config_path'') \<and> fst (setup_kerberos g uid w s) = None
        then (config s)(''jaas_config_path'' \<mapsto> VStr jaas_config_path) else config s)"
    by (rule config_setup_kerberos)
qed

lemma init_success_path:
  assumes "DOTENV_AVAILABLE pf"
    and "load_config (path_exists pf) (parser_read pf) (load_dotenv pf environ0) f = Inr cfg"
    and "validate_config (path_exists pf) cfg = Inr ()"
  shows "init pf f environ0 =
         setup_kerberos (GSSAPI_AVAILABLE pf) (getuid pf) (write_file pf)
           \<lparr>config = cfg, producers = [], consumers = [], os_environ = load_dotenv pf environ0,
            written_files = Map.empty, log_lines = [], constructed = [], closed_handles = []\<rparr>"
  using assms by (simp add: init_def Let_def)

lemma setup_kerberos_creates:
  assumes "\<not> truthy (config s ''jaas_config_path'')"
    and "config s ''keytab_path'' = Some k" and "config s ''principal'' = Some p"
    and "w jaas_config_path (jaas_config_content k p) = None"
  shows "fst (setup_kerberos g uid w s) = None"
  using assms by (simp add: setup_kerberos_def create_jaas_config_def subscript_def Let_def)

lemma sample_resolved_fields:
  "map (projr (load_config every_path_exists sample_parser sample_env (Some ''kafka.ini'')))
     [''bootstrap_servers'', ''topic'', ''keytab_path'', ''principal'', ''jaas_config_path'']
   = [Some (VStr ''broker1:9092,broker2:9092''), Some (VStr ''events''),
      Some (VStr ''/etc/security/kafka.keytab''), Some (VStr ''user@REALM''), None]"
  by (simp add: load_config_def merged_config_def file_section_def every_path_exists_def
      sample_parser_def sample_ini_def sample_env_def env_config_def env_vars_def
      set_defaults_def setdefault_def convert_numeric_def py_int_def py_strip_def
      py_isspace_def is_digit_def)

lemma sample_init:
  "fst (init sample_platform (Some ''kafka.ini'') sample_env) = None"
  "config (snd (init sample_platform (Some ''kafka.ini'') sample_env)) ''jaas_config_path''
   = Some (VStr jaas_config_path)"
proof -
  from sample_load_config obtain cfg where
    cfg: "load_config every_path_exists sample_parser sample_env (Some ''kafka.ini'') = Inr cfg"
    by blast
  from sample_resolved_fields cfg have f: "cfg ''bootstrap_servers'' = Some (VStr ''broker1:9092,broker2:9092'')"
    "cfg ''topic'' = Some (VStr ''events'')" "cfg ''keytab_path'' = Some (VStr ''/etc/security/kafka.keytab'')"
    "cfg ''principal'' = Some (VStr ''user@REALM'')" "cfg ''jaas_config_path'' = None"
    by simp_all
  have v: "validate_config every_path_exists cfg = Inr ()"
    by (simp add: validate_config_def missing_params_def required_params_def f every_path_exists_def)
  define s2 where "s2 = \<lparr>config = cfg, producers = [], consumers = [], os_environ = sample_env,
            written_files = Map.empty, log_lines = [], constructed = [], closed_handles = []\<rparr>"
  have i: "init sample_platform (Some ''kafka.ini'') sample_env =
       setup_kerberos True 1000 (\<lambda>path content. None) s2"
    using init_success_path[of sample_platform sample_env "Some ''kafka.ini''" cfg] cfg v
    by (simp add: sample_platform_def s2_def)
  have ok: "fst (setup_kerberos True 1000 (\<lambda>path content. None) s2) = None"
    by (rule setup_kerberos_creates[where k = "VStr ''/etc/security/kafka.keytab''"
          and p = "VStr ''user@REALM''"]) (simp_all add: s2_def f)
  show "fst (init sample_platform (Some ''kafka.ini'') sample_env) = None"
    using i ok by simp
  show "config (snd (init sample_platform (Some ''kafka.ini'') sample_env)) ''jaas_config_path''
   = Some (VStr jaas_config_path)"
    unfolding i config_setup_kerberos using ok by (simp add: s2_def f)
qed

text \<open>
  The claim C5 as it was stated fails: the configuration that \<^verbatim>\<open>_load_config\<close> builds
  from the sample file and environment has no \<^verbatim>\<open>jaas_config_path\<close>; after the credential
  setup at the end of \<^verbatim>\<open>__init__\<close> the configuration of the session has one.
\<close>

theorem config_fixed_but_jaas_path_counterexample:
  "fst (init sample_platform (Some ''kafka.ini'') sample_env) = None
   \<and> projr (load_config every_path_exists sample_parser sample_env (Some ''kafka.ini''))
        ''jaas_config_path'' = None
   \<and> config (snd (init sample_platform (Some ''kafka.ini'') sample_env)) ''jaas_config_path''
        = Some (VStr ''/tmp/kafka_jaas.conf'')"
  using sample_init sample_resolved_fields by (simp add: jaas_config_path_def)

lemma sample_setup_kerberos:
  "fst (setup_kerberos True 1000 (write_file sample_platform) sample_session) = None"
  by (rule setup_kerberos_creates[where k = "VStr ''/etc/security/kafka.keytab''"
        and p = "VStr ''user@REALM''"])
     (simp_all add: sample_session_config sample_config_def sample_platform_def)

theorem config_fixed_but_jaas_path_witness:
  "config (snd (the (consume_messages new_consumer (polls_then_empty three_in_two_polls) None
      (Some failing_handler) 0 (Some 3) 1000 sample_session))) = sample_config
   \<and> config (snd (setup_kerberos True 1000 (write_file sample_platform) sample_session))
     = sample_config(''jaas_config_path'' \<mapsto> VStr ''/tmp/kafka_jaas.conf'')"
proof -
  from failing_handler_run obtain r s' where
    run: "consume_messages new_consumer (polls_then_empty three_in_two_polls) None
      (Some failing_handler) 0 (Some 3) 1000 sample_session = Some (r, s')"
    by blast
  note inst = config_fixed_but_jaas_path[of _ None sample_session new_consumer _ _ _
      "polls_then_empty three_in_two_polls" "Some failing_handler" 0 "Some 3" 1000 _
      True 1000 "write_file sample_platform"]
  from inst run have "config s' = config sample_session" by blast
  moreover from inst sample_setup_kerberos
  have "config (snd (setup_kerberos True 1000 (write_file sample_platform) sample_session))
     = (config sample_session)(''jaas_config_path'' \<mapsto> VStr jaas_config_path)"
    by (simp add: sample_session_config sample_config_def)
  ultimately show ?thesis
    using run by (simp add: sample_session_config jaas_config_path_def)
qed

end
